theory Spec2Isabelle
  imports Complex_Main
begin

section \<open>YouTube Audio Normalizer: the content script\<close>

text \<open>
  The content script keeps its state in module-level variables (\<open>settings\<close>, \<open>audioCtx\<close>,
  \<open>nodes\<close>, \<open>currentVideo\<close>, \<open>metering\<close>, \<open>autoGainValue\<close>, \<open>levels\<close>, \<open>rmsHistory\<close>)
  and changes them from three kinds of callbacks: the runtime message listener, the
  metering interval and the attach logic. The model passes one record of these variables
  through every function. What the script does to the outside (Web Audio calls,
  \<open>chrome.storage.sync.set\<close>, timers, the console) is appended to a trace, and the
  connections of the audio graph are kept as an explicit edge list, because several node
  sets can be alive at once.

  JavaScript numbers are modelled as mathematical reals: arithmetic is exact, there is no
  rounding, no NaN and no infinity (the one infinity the script writes, the initial meter
  reading, is a constructor of its own).

  Runs start from the script's initial variables, with the default settings; the merge
  of stored settings in \<open>loadSettings\<close> is not part of the model.
\<close>

subsection \<open>Settings and presets\<close>

record settings =
  enabled :: bool
  preset :: string
  autoGain :: bool
  targetLevel :: real
  threshold :: real
  ratio :: real
  knee :: real
  attack :: real
  release :: real
  makeupGain :: real
  preGain :: real
  limiterThreshold :: real

text \<open>One entry of the \<open>PRESETS\<close> table: the eight keys each preset object has.\<close>

record preset_values =
  pv_threshold :: real
  pv_ratio :: real
  pv_knee :: real
  pv_attack :: real
  pv_release :: real
  pv_makeupGain :: real
  pv_autoGain :: bool
  pv_targetLevel :: real

text \<open>
  \<open>msg.settings\<close> of an \<open>updateSettings\<close> message: an object that may carry any subset of
  the settings keys, with values of the types the popup sends. A key that is absent
  reads as \<open>undefined\<close>, here \<open>None\<close>. Other keys would be copied into the settings object
  and never read; they are left out.
\<close>

record incoming =
  in_enabled :: "bool option"
  in_preset :: "string option"
  in_autoGain :: "bool option"
  in_targetLevel :: "real option"
  in_threshold :: "real option"
  in_ratio :: "real option"
  in_knee :: "real option"
  in_attack :: "real option"
  in_release :: "real option"
  in_makeupGain :: "real option"
  in_preGain :: "real option"
  in_limiterThreshold :: "real option"

text \<open>
  \<open>PRESETS[name]\<close> is a property read on an object literal. It finds the three own keys,
  and, through the prototype chain, every property of \<open>Object.prototype\<close>: for those names
  the read yields a function (or the prototype object), which is truthy and has no
  enumerable own property. Any other name reads as \<open>undefined\<close>.
\<close>

datatype presets_entry = Own preset_values | Inherited | Missing

definition object_prototype_keys :: "string list" where
  "object_prototype_keys =
     [''constructor'', ''toString'', ''toLocaleString'', ''valueOf'', ''hasOwnProperty'',
      ''isPrototypeOf'', ''propertyIsEnumerable'', ''__proto__'', ''__defineGetter__'',
      ''__defineSetter__'', ''__lookupGetter__'', ''__lookupSetter__'']"

definition light :: preset_values where
  "light = \<lparr>pv_threshold = -18, pv_ratio = 2, pv_knee = 20, pv_attack = 10, pv_release = 300,
            pv_makeupGain = 2, pv_autoGain = True, pv_targetLevel = -16\<rparr>"

definition medium :: preset_values where
  "medium = \<lparr>pv_threshold = -24, pv_ratio = 4, pv_knee = 10, pv_attack = 3, pv_release = 250,
             pv_makeupGain = 6, pv_autoGain = True, pv_targetLevel = -14\<rparr>"

definition heavy :: preset_values where
  "heavy = \<lparr>pv_threshold = -35, pv_ratio = 10, pv_knee = 5, pv_attack = 1, pv_release = 150,
            pv_makeupGain = 12, pv_autoGain = True, pv_targetLevel = -11\<rparr>"

definition PRESETS :: "string \<Rightarrow> presets_entry" where
  "PRESETS name =
     (if name = ''light'' then Own light
      else if name = ''medium'' then Own medium
      else if name = ''heavy'' then Own heavy
      else if name \<in> set object_prototype_keys then Inherited
      else Missing)"

definition DEFAULT_SETTINGS :: settings where
  "DEFAULT_SETTINGS =
     \<lparr>enabled = True, preset = ''medium'', autoGain = True, targetLevel = -14,
      threshold = -24, ratio = 4, knee = 10, attack = 3, release = 250, makeupGain = 6,
      preGain = 0, limiterThreshold = -1\<rparr>"

text \<open>\<open>Object.assign(settings, incoming)\<close>: every key present in \<open>incoming\<close> overwrites.\<close>

definition assign_incoming :: "settings \<Rightarrow> incoming \<Rightarrow> settings" where
  "assign_incoming st inc =
     \<lparr>enabled = (case in_enabled inc of Some v \<Rightarrow> v | None \<Rightarrow> enabled st),
      preset = (case in_preset inc of Some v \<Rightarrow> v | None \<Rightarrow> preset st),
      autoGain = (case in_autoGain inc of Some v \<Rightarrow> v | None \<Rightarrow> autoGain st),
      targetLevel = (case in_targetLevel inc of Some v \<Rightarrow> v | None \<Rightarrow> targetLevel st),
      threshold = (case in_threshold inc of Some v \<Rightarrow> v | None \<Rightarrow> threshold st),
      ratio = (case in_ratio inc of Some v \<Rightarrow> v | None \<Rightarrow> ratio st),
      knee = (case in_knee inc of Some v \<Rightarrow> v | None \<Rightarrow> knee st),
      attack = (case in_attack inc of Some v \<Rightarrow> v | None \<Rightarrow> attack st),
      release = (case in_release inc of Some v \<Rightarrow> v | None \<Rightarrow> release st),
      makeupGain = (case in_makeupGain inc of Some v \<Rightarrow> v | None \<Rightarrow> makeupGain st),
      preGain = (case in_preGain inc of Some v \<Rightarrow> v | None \<Rightarrow> preGain st),
      limiterThreshold =
        (case in_limiterThreshold inc of Some v \<Rightarrow> v | None \<Rightarrow> limiterThreshold st)\<rparr>"

text \<open>\<open>Object.assign(settings, PRESETS[name])\<close> for each kind of value the read can give.\<close>

definition assign_preset :: "settings \<Rightarrow> preset_values \<Rightarrow> settings" where
  "assign_preset st p =
     st\<lparr>threshold := pv_threshold p, ratio := pv_ratio p, knee := pv_knee p,
        attack := pv_attack p, release := pv_release p, makeupGain := pv_makeupGain p,
        autoGain := pv_autoGain p, targetLevel := pv_targetLevel p\<rparr>"

fun assign_entry :: "settings \<Rightarrow> presets_entry \<Rightarrow> settings" where
  "assign_entry st (Own p) = assign_preset st p"
| "assign_entry st Inherited = st"
| "assign_entry st Missing = st"

fun truthy_entry :: "presets_entry \<Rightarrow> bool" where
  "truthy_entry (Own p) = True"
| "truthy_entry Inherited = True"
| "truthy_entry Missing = False"

text \<open>The eight preset keys as they stand in a settings record.\<close>

definition preset_fields :: "settings \<Rightarrow> preset_values" where
  "preset_fields st =
     \<lparr>pv_threshold = threshold st, pv_ratio = ratio st, pv_knee = knee st,
      pv_attack = attack st, pv_release = release st, pv_makeupGain = makeupGain st,
      pv_autoGain = autoGain st, pv_targetLevel = targetLevel st\<rparr>"

subsection \<open>Helpers\<close>

definition dBtoLinear :: "real \<Rightarrow> real" where
  "dBtoLinear dB = 10 powr (dB / 20)"

text \<open>\<open>lin || 1e-10\<close> takes the fallback exactly when \<open>lin\<close> is falsy, that is zero.\<close>

definition linearToDB :: "real \<Rightarrow> real" where
  "linearToDB lin = 20 * log 10 (if lin = 0 then 1 / 10 ^ 10 else lin)"

text \<open>
  The loop of \<open>calcRMS\<close> is a left fold. For an empty buffer JavaScript divides zero by
  zero; the analyser buffers always have \<open>fftSize = 2048\<close> entries.
\<close>

definition calcRMS :: "real list \<Rightarrow> real" where
  "calcRMS buffer = sqrt (foldl (\<lambda>sum x. sum + x * x) 0 buffer / real (length buffer))"

subsection \<open>The module state and the outside world\<close>

datatype node = Dest | Node nat

datatype ctx_state = Suspended | Running | Closed

record audio_context =
  ctx_state :: ctx_state
  currentTime :: real

text \<open>The eight audio nodes of one stage set, each named by its identity.\<close>

record nodes =
  n_source :: nat
  n_inputAnalyser :: nat
  n_preGain :: nat
  n_autoGain :: nat
  n_compressor :: nat
  n_makeupGain :: nat
  n_limiter :: nat
  n_outputAnalyser :: nat

datatype level = NegInfinity | dB real

record levels =
  inputRMS :: level
  outputRMS :: level
  reduction :: real

text \<open>Calls that leave the script, in the order they are made.\<close>

datatype effect =
    StorageSet settings
  | SetValue nat string real
  | SetTargetAtTime nat real real real
  | Disconnect nat
  | Connect nat node
  | Resume
  | SetInterval nat
  | ClearInterval nat
  | AddCanplayListener nat
  | ConsoleWarn string
  | ConsoleLog string
  | ConsoleError string

text \<open>
  The first eight fields are the script's variables (\<open>nodes = {}\<close> is \<open>None\<close>: the object is
  only ever empty or complete). The others are the world the script acts on: the live
  connections of the audio graph, the media elements that already have a source node
  (\<open>createMediaElementSource\<close> throws for those), the next free node and timer
  identities, the elements with a pending \<open>canplay\<close> listener, and the trace.
\<close>

record state =
  settings :: settings
  audioCtx :: "audio_context option"
  nodes :: "nodes option"
  currentVideo :: "nat option"
  metering :: "nat option"
  autoGainValue :: real
  levels :: levels
  rmsHistory :: "real list"
  connections :: "(node \<times> node) list"
  tapped :: "nat list"
  next_node :: nat
  next_timer :: nat
  pending_canplay :: "nat list"
  trace :: "effect list"

definition RMS_HISTORY_LEN :: nat where
  "RMS_HISTORY_LEN = 20"

text \<open>Both analysers get \<open>fftSize = 2048\<close>, the length of the buffers the metering reads.\<close>

definition fftSize :: nat where
  "fftSize = 2048"

definition initial_state :: state where
  "initial_state =
     \<lparr>settings = DEFAULT_SETTINGS, audioCtx = None, nodes = None, currentVideo = None,
      metering = None, autoGainValue = 0,
      levels = \<lparr>inputRMS = NegInfinity, outputRMS = NegInfinity, reduction = 0\<rparr>,
      rmsHistory = [], connections = [], tapped = [], next_node = 0, next_timer = 1,
      pending_canplay = [], trace = []\<rparr>"

definition emit :: "effect list \<Rightarrow> state \<Rightarrow> state" where
  "emit es s = s\<lparr>trace := trace s @ es\<rparr>"

text \<open>
  A function of the script either runs to its end or throws (a property read on
  \<open>undefined\<close> or \<open>null\<close>); the state it leaves behind is kept in both cases.
\<close>

datatype outcome = Done | Thrown

definition saveSettings :: "state \<Rightarrow> state" where
  "saveSettings s = emit [StorageSet (settings s)] s"

subsection \<open>Connection helpers\<close>

definition nodes_values :: "nodes \<Rightarrow> nat list" where
  "nodes_values nd =
     [n_source nd, n_inputAnalyser nd, n_preGain nd, n_autoGain nd, n_compressor nd,
      n_makeupGain nd, n_limiter nd, n_outputAnalyser nd]"

text \<open>\<open>n.disconnect()\<close> removes every outgoing connection of \<open>n\<close>.\<close>

definition disconnect :: "nat \<Rightarrow> state \<Rightarrow> state" where
  "disconnect n s =
     emit [Disconnect n] (s\<lparr>connections := filter (\<lambda>e. fst e \<noteq> Node n) (connections s)\<rparr>)"

definition connect :: "nat \<Rightarrow> node \<Rightarrow> state \<Rightarrow> state" where
  "connect a b s = emit [Connect a b] (s\<lparr>connections := List.insert (Node a, b) (connections s)\<rparr>)"

definition disconnectAll :: "state \<Rightarrow> state" where
  "disconnectAll s =
     (case nodes s of
        None \<Rightarrow> s
      | Some nd \<Rightarrow> foldl (\<lambda>t n. disconnect n t) s (nodes_values nd))"

text \<open>The seven \<open>connect\<close> calls of the processing chain, in source order.\<close>

definition processing_chain :: "nodes \<Rightarrow> (nat \<times> node) list" where
  "processing_chain nd =
     [(n_source nd, Node (n_inputAnalyser nd)),
      (n_inputAnalyser nd, Node (n_preGain nd)),
      (n_preGain nd, Node (n_autoGain nd)),
      (n_autoGain nd, Node (n_compressor nd)),
      (n_compressor nd, Node (n_makeupGain nd)),
      (n_makeupGain nd, Node (n_limiter nd)),
      (n_limiter nd, Node (n_outputAnalyser nd))]"

definition connect_each :: "(nat \<times> node) list \<Rightarrow> state \<Rightarrow> state" where
  "connect_each links s = foldl (\<lambda>t l. connect (fst l) (snd l) t) s links"

text \<open>
  With \<open>nodes = {}\<close> the destructured \<open>source\<close> is \<open>undefined\<close> and the first \<open>connect\<close>
  throws; with no audio context the read of \<open>audioCtx.destination\<close> throws after the
  seven inner connections are made.
\<close>

definition connectProcessing :: "state \<Rightarrow> outcome \<times> state" where
  "connectProcessing s =
     (let s1 = disconnectAll s in
      case nodes s1 of
        None \<Rightarrow> (Thrown, s1)
      | Some nd \<Rightarrow>
          (let s2 = connect_each (processing_chain nd) s1
           in case audioCtx s2 of
                None \<Rightarrow> (Thrown, s2)
              | Some ctx \<Rightarrow> (Done, connect (n_outputAnalyser nd) Dest s2)))"

definition connectBypass :: "state \<Rightarrow> outcome \<times> state" where
  "connectBypass s =
     (let s1 = disconnectAll s in
      case nodes s1 of
        None \<Rightarrow> (Thrown, s1)
      | Some nd \<Rightarrow>
          (case audioCtx s1 of
             None \<Rightarrow> (Thrown, s1)
           | Some ctx \<Rightarrow> (Done, connect (n_source nd) Dest s1)))"

subsection \<open>Applying the settings to the audio nodes\<close>

text \<open>The eight parameter writes at the head of \<open>applySettingsToNodes\<close>, in source order.\<close>

definition parameter_writes :: "nodes \<Rightarrow> settings \<Rightarrow> effect list" where
  "parameter_writes nd st =
     [SetValue (n_compressor nd) ''threshold'' (threshold st),
      SetValue (n_compressor nd) ''ratio'' (ratio st),
      SetValue (n_compressor nd) ''knee'' (knee st),
      SetValue (n_compressor nd) ''attack'' (attack st / 1000),
      SetValue (n_compressor nd) ''release'' (release st / 1000),
      SetValue (n_makeupGain nd) ''gain'' (dBtoLinear (makeupGain st)),
      SetValue (n_preGain nd) ''gain'' (dBtoLinear (preGain st)),
      SetValue (n_limiter nd) ''threshold'' (limiterThreshold st)]"

definition applySettingsToNodes :: "state \<Rightarrow> outcome \<times> state" where
  "applySettingsToNodes s =
     (case nodes s of
        None \<Rightarrow> (Done, s)
      | Some nd \<Rightarrow>
          (let s1 = emit (parameter_writes nd (settings s)) s
           in if \<not> autoGain (settings s1) then
                (let s2 = s1\<lparr>autoGainValue := 0\<rparr> in
                 case audioCtx s2 of
                   None \<Rightarrow> (Thrown, s2)
                 | Some ctx \<Rightarrow>
                     (Done, emit [SetTargetAtTime (n_autoGain nd) 1 (currentTime ctx) (5 / 100)] s2))
              else (Done, s1)))"

subsection \<open>Metering and the auto-gain loop\<close>

definition startMetering :: "state \<Rightarrow> state" where
  "startMetering s =
     (let s1 = (case metering s of Some t \<Rightarrow> emit [ClearInterval t] s | None \<Rightarrow> s);
          s2 = s1\<lparr>rmsHistory := [], autoGainValue := 0\<rparr>
      in emit [SetInterval (next_timer s2)]
           (s2\<lparr>metering := Some (next_timer s2), next_timer := Suc (next_timer s2)\<rparr>))"

text \<open>
  One run of the interval callback. The two analyser buffers and the compressor's
  reduction reading come from the audio engine and are the arguments.
\<close>

definition tick :: "real list \<Rightarrow> real list \<Rightarrow> real \<Rightarrow> state \<Rightarrow> state" where
  "tick inBuf outBuf red s =
     (case audioCtx s of
        None \<Rightarrow> s
      | Some ctx \<Rightarrow>
          (case nodes s of
             None \<Rightarrow> s
           | Some nd \<Rightarrow>
               (let inRMS = calcRMS inBuf;
                    outRMS = calcRMS outBuf;
                    s1 = s\<lparr>levels := \<lparr>inputRMS = dB (linearToDB inRMS),
                                      outputRMS = dB (linearToDB outRMS),
                                      reduction = red\<rparr>\<rparr>
                in if enabled (settings s1) \<and> autoGain (settings s1) \<and> inRMS > 5 / 10000 then
                     (let h1 = rmsHistory s1 @ [linearToDB inRMS];
                          h2 = (if length h1 > RMS_HISTORY_LEN then tl h1 else h1);
                          avgDB = foldl (\<lambda>a b. a + b) 0 h2 / real (length h2);
                          desired = targetLevel (settings s1) - avgDB;
                          a1 = autoGainValue s1 + (desired - autoGainValue s1) * (8 / 100);
                          a2 = max (-24) (min 24 a1)
                      in emit [SetTargetAtTime (n_autoGain nd) (dBtoLinear a2) (currentTime ctx) (3 / 10)]
                           (s1\<lparr>rmsHistory := h2, autoGainValue := a2\<rparr>))
                   else s1)))"

subsection \<open>Building the audio graph\<close>

text \<open>
  A new \<open>AudioContext\<close> is suspended until the engine starts it. The constructor is taken
  to succeed.
\<close>

definition new_AudioContext :: audio_context where
  "new_AudioContext = \<lparr>ctx_state = Suspended, currentTime = 0\<rparr>"

text \<open>
  The part of \<open>buildGraph\<close> after the source node exists: the body of the outer
  \<open>try\<close>, from the node creation on. The source node and the seven nodes created after
  it take the next eight free identities.
\<close>

definition created_nodes :: "nat \<Rightarrow> nodes" where
  "created_nodes k =
     \<lparr>n_source = k, n_inputAnalyser = k + 1, n_preGain = k + 2, n_autoGain = k + 3,
      n_compressor = k + 4, n_makeupGain = k + 5, n_limiter = k + 6,
      n_outputAnalyser = k + 7\<rparr>"

definition buildGraph_body :: "nat \<Rightarrow> state \<Rightarrow> outcome \<times> state" where
  "buildGraph_body video s =
     (let k = next_node s;
          nd = created_nodes k;
          s1 = emit
                 [SetValue (n_inputAnalyser nd) ''fftSize'' (real fftSize),
                  SetValue (n_outputAnalyser nd) ''fftSize'' (real fftSize),
                  SetValue (n_limiter nd) ''threshold'' (-1),
                  SetValue (n_limiter nd) ''ratio'' 20,
                  SetValue (n_limiter nd) ''knee'' 0,
                  SetValue (n_limiter nd) ''attack'' (1 / 1000),
                  SetValue (n_limiter nd) ''release'' (1 / 100)]
                 (s\<lparr>next_node := k + 8, tapped := video # tapped s\<rparr>);
          s2 = s1\<lparr>nodes := Some nd\<rparr>
      in case applySettingsToNodes s2 of
           (Thrown, s3) \<Rightarrow> (Thrown, s3)
         | (Done, s3) \<Rightarrow>
             (case (if enabled (settings s3) then connectProcessing s3 else connectBypass s3) of
                (Thrown, s4) \<Rightarrow> (Thrown, s4)
              | (Done, s4) \<Rightarrow>
                  (case audioCtx s4 of
                     None \<Rightarrow> (Thrown, s4)
                   | Some ctx \<Rightarrow>
                       (let s5 = (if ctx_state ctx = Suspended then emit [Resume] s4 else s4)
                        in (Done, emit [ConsoleLog ''[YT Normalizer] Audio graph ready.'']
                                    (startMetering s5))))))"

definition buildGraph :: "nat \<Rightarrow> state \<Rightarrow> state" where
  "buildGraph video s =
     (if currentVideo s = Some video \<and> audioCtx s \<noteq> None then s
      else
        (let s1 = s\<lparr>currentVideo := Some video\<rparr>;
             s2 = (case audioCtx s1 of
                     None \<Rightarrow> s1\<lparr>audioCtx := Some new_AudioContext\<rparr>
                   | Some ctx \<Rightarrow>
                       if ctx_state ctx = Closed then s1\<lparr>audioCtx := Some new_AudioContext\<rparr>
                       else s1)
         in if video \<in> set (tapped s2) then
              emit [ConsoleWarn ''[YT Normalizer] createMediaElementSource failed:''] s2
            else
              (case buildGraph_body video s2 of
                 (Done, s3) \<Rightarrow> s3
               | (Thrown, s3) \<Rightarrow> emit [ConsoleError ''[YT Normalizer] buildGraph error:''] s3)))"

text \<open>
  \<open>tryAttach\<close>: the argument is what \<open>findVideo()\<close> returns, an element with its
  \<open>readyState\<close>, or nothing.
\<close>

definition tryAttach :: "(nat \<times> nat) option \<Rightarrow> state \<Rightarrow> state" where
  "tryAttach found s =
     (case found of
        None \<Rightarrow> s
      | Some (video, readyState) \<Rightarrow>
          if currentVideo s = Some video then s
          else if readyState \<ge> 2 then buildGraph video s
          else emit [AddCanplayListener video] (s\<lparr>pending_canplay := video # pending_canplay s\<rparr>))"

text \<open>The \<open>canplay\<close> listener registered by \<open>tryAttach\<close> runs once.\<close>

definition canplay :: "nat \<Rightarrow> state \<Rightarrow> state" where
  "canplay video s =
     (if video \<in> set (pending_canplay s)
      then buildGraph video (s\<lparr>pending_canplay := remove1 video (pending_canplay s)\<rparr>)
      else s)"

subsection \<open>Message handling\<close>

datatype msg =
    GetState
  | UpdateSettings incoming
  | ApplyPreset string
  | ResetSettings
  | UnknownType string

datatype response =
    StateSnapshot settings levels real bool "ctx_state option"
  | Success settings
  | ErrorResponse string

text \<open>
  The settings part of the \<open>updateSettings\<close> case: a truthy \<open>incoming.preset\<close> other than
  \<open>'custom'\<close> with a truthy \<open>PRESETS\<close> entry takes the first branch, everything else the
  second, where \<open>incoming.preset !== settings.preset\<close> is read after the assignment.
\<close>

definition updateSettings_merge :: "incoming \<Rightarrow> settings \<Rightarrow> settings" where
  "updateSettings_merge inc st =
     (let st1 = assign_incoming st inc;
          otherwise = (if in_preset inc \<noteq> Some (preset st1) then st1\<lparr>preset := ''custom''\<rparr>
                       else st1)
      in case in_preset inc of
           None \<Rightarrow> otherwise
         | Some p \<Rightarrow>
             if p \<noteq> [] \<and> p \<noteq> ''custom'' \<and> truthy_entry (PRESETS p)
             then assign_entry st1 (PRESETS p)
             else otherwise)"

text \<open>
  The listener returns the response it sends, or nothing when a call inside the handler
  throws before \<open>sendResponse\<close> is reached.
\<close>

definition onMessage :: "msg \<Rightarrow> state \<Rightarrow> response option \<times> state" where
  "onMessage m s =
     (case m of
        GetState \<Rightarrow>
          (Some (StateSnapshot (settings s) (levels s) (autoGainValue s)
                   (audioCtx s \<noteq> None \<and> nodes s \<noteq> None)
                   (map_option ctx_state (audioCtx s))), s)
      | UpdateSettings inc \<Rightarrow>
          (let s1 = saveSettings (s\<lparr>settings := updateSettings_merge inc (settings s)\<rparr>)
           in case applySettingsToNodes s1 of
                (Thrown, s2) \<Rightarrow> (None, s2)
              | (Done, s2) \<Rightarrow>
                  (case in_enabled inc of
                     None \<Rightarrow> (Some (Success (settings s2)), s2)
                   | Some en \<Rightarrow>
                       (case (if en then connectProcessing s2 else connectBypass s2) of
                          (Thrown, s3) \<Rightarrow> (None, s3)
                        | (Done, s3) \<Rightarrow> (Some (Success (settings s3)), s3))))
      | ApplyPreset name \<Rightarrow>
          (if truthy_entry (PRESETS name) then
             (let s1 = saveSettings
                         (s\<lparr>settings :=
                              (assign_entry (settings s) (PRESETS name))
                                \<lparr>preset := name, enabled := True\<rparr>\<rparr>)
              in case applySettingsToNodes s1 of
                   (Thrown, s2) \<Rightarrow> (None, s2)
                 | (Done, s2) \<Rightarrow>
                     (case connectProcessing s2 of
                        (Thrown, s3) \<Rightarrow> (None, s3)
                      | (Done, s3) \<Rightarrow> (Some (Success (settings s3)), s3)))
           else (Some (Success (settings s)), s))
      | ResetSettings \<Rightarrow>
          (let s1 = saveSettings (s\<lparr>settings := DEFAULT_SETTINGS\<rparr>)
           in case applySettingsToNodes s1 of
                (Thrown, s2) \<Rightarrow> (None, s2)
              | (Done, s2) \<Rightarrow>
                  (case (if enabled (settings s2) then connectProcessing s2 else connectBypass s2) of
                     (Thrown, s3) \<Rightarrow> (None, s3)
                   | (Done, s3) \<Rightarrow> (Some (Success (settings s3)), s3)))
      | UnknownType t \<Rightarrow> (Some (ErrorResponse ''unknown message type''), s))"

subsection \<open>Runs of the script\<close>

datatype event =
    Message msg
  | Tick "real list" "real list" real
  | TryAttach "(nat \<times> nat) option"
  | Canplay nat

fun step :: "state \<Rightarrow> event \<Rightarrow> state" where
  "step s (Message m) = snd (onMessage m s)"
| "step s (Tick inBuf outBuf red) = tick inBuf outBuf red s"
| "step s (TryAttach found) = tryAttach found s"
| "step s (Canplay video) = canplay video s"

definition run :: "event list \<Rightarrow> state \<Rightarrow> state" where
  "run evs s = foldl step s evs"

subsection \<open>Readings of the specification and inputs used below\<close>

text \<open>The empty object \<open>{}\<close> as the \<open>settings\<close> of an \<open>updateSettings\<close> message.\<close>

definition no_fields :: incoming where
  "no_fields =
     \<lparr>in_enabled = None, in_preset = None, in_autoGain = None, in_targetLevel = None,
      in_threshold = None, in_ratio = None, in_knee = None, in_attack = None,
      in_release = None, in_makeupGain = None, in_preGain = None,
      in_limiterThreshold = None\<rparr>"

text \<open>
  The specification's merge rule, in its words: the update "supplies a matching preset
  name" when its \<open>preset\<close> is one of the table's own names, and "some explicitly provided
  field is not equal to the active preset's value" compares each provided preset key with
  the tuple of the active preset.
\<close>

definition spec_supplies_named_preset :: "incoming \<Rightarrow> bool" where
  "spec_supplies_named_preset inc =
     (case in_preset inc of
        None \<Rightarrow> False
      | Some name \<Rightarrow> (case PRESETS name of Own p \<Rightarrow> True | Inherited \<Rightarrow> False | Missing \<Rightarrow> False))"

definition spec_field_differs :: "preset_values \<Rightarrow> incoming \<Rightarrow> bool" where
  "spec_field_differs active inc =
     ((case in_threshold inc of Some v \<Rightarrow> v \<noteq> pv_threshold active | None \<Rightarrow> False) \<or>
      (case in_ratio inc of Some v \<Rightarrow> v \<noteq> pv_ratio active | None \<Rightarrow> False) \<or>
      (case in_knee inc of Some v \<Rightarrow> v \<noteq> pv_knee active | None \<Rightarrow> False) \<or>
      (case in_attack inc of Some v \<Rightarrow> v \<noteq> pv_attack active | None \<Rightarrow> False) \<or>
      (case in_release inc of Some v \<Rightarrow> v \<noteq> pv_release active | None \<Rightarrow> False) \<or>
      (case in_makeupGain inc of Some v \<Rightarrow> v \<noteq> pv_makeupGain active | None \<Rightarrow> False) \<or>
      (case in_autoGain inc of Some v \<Rightarrow> v \<noteq> pv_autoGain active | None \<Rightarrow> False) \<or>
      (case in_targetLevel inc of Some v \<Rightarrow> v \<noteq> pv_targetLevel active | None \<Rightarrow> False))"

definition spec_custom_after :: "preset_values \<Rightarrow> incoming \<Rightarrow> bool" where
  "spec_custom_after active inc =
     (\<not> spec_supplies_named_preset inc \<and> spec_field_differs active inc)"

text \<open>
  The invariant of the settings record: a \<open>preset\<close> that is an own name of the table comes
  with that preset's tuple.
\<close>

definition named_ok :: "settings \<Rightarrow> bool" where
  "named_ok st = (\<forall>p. PRESETS (preset st) = Own p \<longrightarrow> preset_fields st = p)"

text \<open>
  The level meter as the specification writes it: the root mean square of the block,
  floored at \<open>1e-10\<close> before the logarithm.
\<close>

definition rms_spec :: "real list \<Rightarrow> real" where
  "rms_spec xs = sqrt ((\<Sum>x\<leftarrow>xs. x\<^sup>2) / real (length xs))"

definition level_meter_spec :: "real list \<Rightarrow> real" where
  "level_meter_spec xs = 20 * log 10 (max (rms_spec xs) (1 / 10 ^ 10))"

text \<open>Trace entries that only change the wiring of the graph.\<close>

fun is_routing :: "effect \<Rightarrow> bool" where
  "is_routing (Disconnect n) = True"
| "is_routing (Connect a b) = True"
| "is_routing e = False"

text \<open>
  The auto-gain step in the specification's words: the window takes the new loudness and
  drops its oldest entry beyond the capacity of 20, the mean is arithmetic, and the
  smoothed value is clamped to \<open>[-24, 24]\<close>.
\<close>

definition spec_push :: "real list \<Rightarrow> real \<Rightarrow> real list" where
  "spec_push window x = (if length (window @ [x]) > 20 then tl (window @ [x]) else window @ [x])"

definition mean_spec :: "real list \<Rightarrow> real" where
  "mean_spec xs = sum_list xs / real (length xs)"

definition spec_clamp :: "real \<Rightarrow> real" where
  "spec_clamp x = (if x < -24 then -24 else if x > 24 then 24 else x)"

text \<open>
  A tick has a measurement above the silence floor when the analyser exists and the
  block it delivers has a root mean square above \<open>0.0005\<close>.
\<close>

definition auto_gain_active :: "real list \<Rightarrow> state \<Rightarrow> bool" where
  "auto_gain_active inBuf s =
     (audioCtx s \<noteq> None \<and> nodes s \<noteq> None \<and> enabled (settings s) \<and> autoGain (settings s) \<and>
      calcRMS inBuf > 5 / 10000)"

text \<open>The first \<open>n\<close> ticks of a run of the metering interval with the given readings.\<close>

primrec ticks :: "(nat \<Rightarrow> real list) \<Rightarrow> (nat \<Rightarrow> real list) \<Rightarrow> (nat \<Rightarrow> real) \<Rightarrow> nat \<Rightarrow> state \<Rightarrow> state" where
  "ticks inBuf outBuf red 0 s = s"
| "ticks inBuf outBuf red (Suc n) s =
     tick (inBuf n) (outBuf n) (red n) (ticks inBuf outBuf red n s)"

text \<open>What a step appended to the trace.\<close>

definition new_trace :: "state \<Rightarrow> state \<Rightarrow> effect list" where
  "new_trace s s' = drop (length (trace s)) (trace s')"

text \<open>
  Two runs used as concrete inputs: one media element (number 1, ready to play) found and
  bound, and then a second element (number 2) found on the same page.
\<close>

definition one_graph :: state where
  "one_graph = run [TryAttach (Some (1, 4))] initial_state"

definition two_graphs :: state where
  "two_graphs = run [TryAttach (Some (1, 4)), TryAttach (Some (2, 4))] initial_state"

text \<open>Analyser blocks: a steady tone of amplitude \<open>0.1\<close>, digital silence, and a tone at \<open>-24\<close> dB.\<close>

definition loud_block :: "real list" where
  "loud_block = replicate fftSize (1 / 10)"

definition silent_block :: "real list" where
  "silent_block = replicate fftSize 0"

definition steady_block :: "real list" where
  "steady_block = replicate fftSize (10 powr (- 6 / 5))"

text \<open>The updates \<open>{autoGain: false}\<close>, \<open>{enabled: false}\<close> and \<open>{autoGain: true}\<close>.\<close>

definition autoGain_off :: incoming where
  "autoGain_off = no_fields\<lparr>in_autoGain := Some False\<rparr>"

definition enabled_off :: incoming where
  "enabled_off = no_fields\<lparr>in_enabled := Some False\<rparr>"

definition autoGain_on :: incoming where
  "autoGain_on = no_fields\<lparr>in_autoGain := Some True\<rparr>"

section \<open>Properties\<close>

subsection \<open>Which variables each function touches\<close>

lemma emit_fields [simp]:
  "settings (emit es s) = settings s"
  "audioCtx (emit es s) = audioCtx s"
  "nodes (emit es s) = nodes s"
  "currentVideo (emit es s) = currentVideo s"
  "metering (emit es s) = metering s"
  "autoGainValue (emit es s) = autoGainValue s"
  "levels (emit es s) = levels s"
  "rmsHistory (emit es s) = rmsHistory s"
  "connections (emit es s) = connections s"
  "tapped (emit es s) = tapped s"
  "next_node (emit es s) = next_node s"
  "next_timer (emit es s) = next_timer s"
  "pending_canplay (emit es s) = pending_canplay s"
  "trace (emit es s) = trace s @ es"
  by (simp_all add: emit_def)

lemma saveSettings_fields [simp]:
  "settings (saveSettings s) = settings s"
  "audioCtx (saveSettings s) = audioCtx s"
  "nodes (saveSettings s) = nodes s"
  "currentVideo (saveSettings s) = currentVideo s"
  "metering (saveSettings s) = metering s"
  "autoGainValue (saveSettings s) = autoGainValue s"
  "levels (saveSettings s) = levels s"
  "rmsHistory (saveSettings s) = rmsHistory s"
  "connections (saveSettings s) = connections s"
  "tapped (saveSettings s) = tapped s"
  "next_node (saveSettings s) = next_node s"
  "next_timer (saveSettings s) = next_timer s"
  "pending_canplay (saveSettings s) = pending_canplay s"
  "trace (saveSettings s) = trace s @ [StorageSet (settings s)]"
  by (simp_all add: saveSettings_def)

lemma disconnect_fold:
  "foldl (\<lambda>t n. disconnect n t) s ns =
     s\<lparr>connections := filter (\<lambda>e. fst e \<notin> Node ` set ns) (connections s),
       trace := trace s @ map Disconnect ns\<rparr>"
proof (induction ns arbitrary: s)
  case Nil
  show ?case by simp
next
  case (Cons n ns)
  show ?case
    by (simp add: Cons) (simp add: disconnect_def emit_def)
qed

lemma connect_each_eq:
  "connect_each links s =
     s\<lparr>connections := foldl (\<lambda>c l. List.insert (Node (fst l), snd l) c) (connections s) links,
       trace := trace s @ map (\<lambda>l. Connect (fst l) (snd l)) links\<rparr>"
  unfolding connect_each_def
proof (induction links arbitrary: s)
  case Nil
  show ?case by simp
next
  case (Cons l links)
  show ?case
    by (simp add: Cons) (simp add: connect_def emit_def)
qed

text \<open>The state after \<open>disconnectAll\<close> and after the two routing functions, written out.\<close>

lemma disconnectAll_eq:
  "disconnectAll s =
     (case nodes s of
        None \<Rightarrow> s
      | Some nd \<Rightarrow>
          s\<lparr>connections := filter (\<lambda>e. fst e \<notin> Node ` set (nodes_values nd)) (connections s),
            trace := trace s @ map Disconnect (nodes_values nd)\<rparr>)"
  by (simp add: disconnectAll_def disconnect_fold split: option.splits)

lemma connectProcessing_eq:
  "connectProcessing s =
     (case nodes s of
        None \<Rightarrow> (Thrown, s)
      | Some nd \<Rightarrow>
          (let c = foldl (\<lambda>c l. List.insert (Node (fst l), snd l) c)
                     (filter (\<lambda>e. fst e \<notin> Node ` set (nodes_values nd)) (connections s))
                     (processing_chain nd);
               t = trace s @ map Disconnect (nodes_values nd) @
                     map (\<lambda>l. Connect (fst l) (snd l)) (processing_chain nd)
           in case audioCtx s of
                None \<Rightarrow> (Thrown, s\<lparr>connections := c, trace := t\<rparr>)
              | Some ctx \<Rightarrow>
                  (Done, s\<lparr>connections := List.insert (Node (n_outputAnalyser nd), Dest) c,
                           trace := t @ [Connect (n_outputAnalyser nd) Dest]\<rparr>)))"
  by (simp add: connectProcessing_def disconnectAll_eq connect_each_eq connect_def emit_def
        Let_def split: option.splits)

lemma connectBypass_eq:
  "connectBypass s =
     (case nodes s of
        None \<Rightarrow> (Thrown, s)
      | Some nd \<Rightarrow>
          (let c = filter (\<lambda>e. fst e \<notin> Node ` set (nodes_values nd)) (connections s);
               t = trace s @ map Disconnect (nodes_values nd)
           in case audioCtx s of
                None \<Rightarrow> (Thrown, s\<lparr>connections := c, trace := t\<rparr>)
              | Some ctx \<Rightarrow>
                  (Done, s\<lparr>connections := List.insert (Node (n_source nd), Dest) c,
                           trace := t @ [Connect (n_source nd) Dest]\<rparr>)))"
  by (simp add: connectBypass_def disconnectAll_eq connect_def emit_def Let_def
        split: option.splits)

text \<open>Re-routing changes the connections and the trace, nothing else.\<close>

lemma connectProcessing_fields [simp]:
  "settings (snd (connectProcessing s)) = settings s"
  "audioCtx (snd (connectProcessing s)) = audioCtx s"
  "nodes (snd (connectProcessing s)) = nodes s"
  "currentVideo (snd (connectProcessing s)) = currentVideo s"
  "metering (snd (connectProcessing s)) = metering s"
  "autoGainValue (snd (connectProcessing s)) = autoGainValue s"
  "levels (snd (connectProcessing s)) = levels s"
  "rmsHistory (snd (connectProcessing s)) = rmsHistory s"
  "tapped (snd (connectProcessing s)) = tapped s"
  "next_node (snd (connectProcessing s)) = next_node s"
  "next_timer (snd (connectProcessing s)) = next_timer s"
  "pending_canplay (snd (connectProcessing s)) = pending_canplay s"
  by (simp_all add: connectProcessing_eq Let_def split: option.splits)

lemma connectBypass_fields [simp]:
  "settings (snd (connectBypass s)) = settings s"
  "audioCtx (snd (connectBypass s)) = audioCtx s"
  "nodes (snd (connectBypass s)) = nodes s"
  "currentVideo (snd (connectBypass s)) = currentVideo s"
  "metering (snd (connectBypass s)) = metering s"
  "autoGainValue (snd (connectBypass s)) = autoGainValue s"
  "levels (snd (connectBypass s)) = levels s"
  "rmsHistory (snd (connectBypass s)) = rmsHistory s"
  "tapped (snd (connectBypass s)) = tapped s"
  "next_node (snd (connectBypass s)) = next_node s"
  "next_timer (snd (connectBypass s)) = next_timer s"
  "pending_canplay (snd (connectBypass s)) = pending_canplay s"
  by (simp_all add: connectBypass_eq Let_def split: option.splits)

lemma routing_trace:
  "\<exists>r. trace (snd (connectProcessing s)) = trace s @ r \<and> list_all is_routing r"
  "\<exists>r. trace (snd (connectBypass s)) = trace s @ r \<and> list_all is_routing r"
  by (auto simp: connectProcessing_eq connectBypass_eq Let_def list_all_iff
        split: option.splits)

lemma routing_Done:
  assumes "nodes s \<noteq> None" and "audioCtx s \<noteq> None"
  shows "fst (connectProcessing s) = Done" and "fst (connectBypass s) = Done"
  using assms by (auto simp: connectProcessing_eq connectBypass_eq Let_def)

text \<open>Re-routing only removes connections that leave a node of the current node set.\<close>

lemma routing_keeps:
  assumes "nodes s = Some nd" and "e \<in> set (connections s)"
    and "fst e \<notin> Node ` set (nodes_values nd)"
  shows "e \<in> set (connections (snd (connectProcessing s)))"
    and "e \<in> set (connections (snd (connectBypass s)))"
proof -
  have ins: "e \<in> set (foldl (\<lambda>c l. List.insert (Node (fst l), snd l) c) c links)"
    if "e \<in> set c" for c and links :: "(nat \<times> node) list"
    using that by (induction links arbitrary: c) simp_all
  have kept: "e \<in> set (filter (\<lambda>e. fst e \<notin> Node ` set (nodes_values nd)) (connections s))"
    using assms by simp
  show "e \<in> set (connections (snd (connectProcessing s)))"
    using assms(1) ins [OF kept]
    by (cases "audioCtx s") (simp_all add: connectProcessing_eq Let_def)
  show "e \<in> set (connections (snd (connectBypass s)))"
    using assms(1) kept
    by (cases "audioCtx s") (simp_all add: connectBypass_eq Let_def)
qed

text \<open>After \<open>connectProcessing\<close> the whole chain down to the destination is connected.\<close>

lemma routing_makes:
  assumes "nodes s = Some nd" and "audioCtx s \<noteq> None"
  shows "l \<in> set (processing_chain nd) \<Longrightarrow>
         (Node (fst l), snd l) \<in> set (connections (snd (connectProcessing s)))"
    and "(Node (n_outputAnalyser nd), Dest) \<in> set (connections (snd (connectProcessing s)))"
proof -
  have ins: "(Node (fst l), snd l) \<in> set (foldl (\<lambda>c l. List.insert (Node (fst l), snd l) c) c links)"
    if "l \<in> set links \<or> (Node (fst l), snd l) \<in> set c"
    for c and links :: "(nat \<times> node) list"
    using that by (induction links arbitrary: c) auto
  show "(Node (fst l), snd l) \<in> set (connections (snd (connectProcessing s)))"
    if "l \<in> set (processing_chain nd)"
    using assms that by (auto simp: connectProcessing_eq Let_def ins)
  show "(Node (n_outputAnalyser nd), Dest) \<in> set (connections (snd (connectProcessing s)))"
    using assms by (auto simp: connectProcessing_eq Let_def)
qed

text \<open>Applying the settings writes parameters and may reset the auto-gain value.\<close>

lemma applySettingsToNodes_fields [simp]:
  "settings (snd (applySettingsToNodes s)) = settings s"
  "audioCtx (snd (applySettingsToNodes s)) = audioCtx s"
  "nodes (snd (applySettingsToNodes s)) = nodes s"
  "currentVideo (snd (applySettingsToNodes s)) = currentVideo s"
  "metering (snd (applySettingsToNodes s)) = metering s"
  "levels (snd (applySettingsToNodes s)) = levels s"
  "rmsHistory (snd (applySettingsToNodes s)) = rmsHistory s"
  "connections (snd (applySettingsToNodes s)) = connections s"
  "tapped (snd (applySettingsToNodes s)) = tapped s"
  "next_node (snd (applySettingsToNodes s)) = next_node s"
  "next_timer (snd (applySettingsToNodes s)) = next_timer s"
  "pending_canplay (snd (applySettingsToNodes s)) = pending_canplay s"
  by (simp_all add: applySettingsToNodes_def Let_def split: option.splits)

lemma applySettingsToNodes_Done:
  "nodes s = None \<or> audioCtx s \<noteq> None \<Longrightarrow> fst (applySettingsToNodes s) = Done"
  by (auto simp: applySettingsToNodes_def Let_def split: option.splits)

lemma applySettingsToNodes_graph:
  assumes "nodes s = Some nd" and "audioCtx s = Some ctx"
  shows "applySettingsToNodes s =
           (Done,
            if autoGain (settings s) then emit (parameter_writes nd (settings s)) s
            else emit (parameter_writes nd (settings s) @
                       [SetTargetAtTime (n_autoGain nd) 1 (currentTime ctx) (5 / 100)])
                   (s\<lparr>autoGainValue := 0\<rparr>))"
  using assms by (simp add: applySettingsToNodes_def Let_def emit_def)

lemma startMetering_fields [simp]:
  "settings (startMetering s) = settings s"
  "audioCtx (startMetering s) = audioCtx s"
  "nodes (startMetering s) = nodes s"
  "currentVideo (startMetering s) = currentVideo s"
  "levels (startMetering s) = levels s"
  "connections (startMetering s) = connections s"
  "tapped (startMetering s) = tapped s"
  "next_node (startMetering s) = next_node s"
  "pending_canplay (startMetering s) = pending_canplay s"
  "metering (startMetering s) = Some (next_timer s)"
  "autoGainValue (startMetering s) = 0"
  "rmsHistory (startMetering s) = []"
  by (simp_all add: startMetering_def Let_def split: option.splits)

lemma tick_fields [simp]:
  "settings (tick inBuf outBuf red s) = settings s"
  "audioCtx (tick inBuf outBuf red s) = audioCtx s"
  "nodes (tick inBuf outBuf red s) = nodes s"
  "currentVideo (tick inBuf outBuf red s) = currentVideo s"
  "metering (tick inBuf outBuf red s) = metering s"
  "connections (tick inBuf outBuf red s) = connections s"
  "tapped (tick inBuf outBuf red s) = tapped s"
  "next_node (tick inBuf outBuf red s) = next_node s"
  "next_timer (tick inBuf outBuf red s) = next_timer s"
  "pending_canplay (tick inBuf outBuf red s) = pending_canplay s"
  by (simp_all add: tick_def Let_def split: option.splits)

subsection \<open>Building the graph\<close>

text \<open>With an audio context at hand the body of \<open>buildGraph\<close> runs to its end.\<close>

lemma buildGraph_body_built:
  assumes ctx: "audioCtx s = Some ctx"
  shows "fst (buildGraph_body video s) = Done"
    and "settings (snd (buildGraph_body video s)) = settings s"
    and "nodes (snd (buildGraph_body video s)) = Some (created_nodes (next_node s))"
    and "tapped (snd (buildGraph_body video s)) = video # tapped s"
    and "audioCtx (snd (buildGraph_body video s)) = Some ctx"
    and "currentVideo (snd (buildGraph_body video s)) = currentVideo s"
    and "autoGainValue (snd (buildGraph_body video s)) = 0"
    and "rmsHistory (snd (buildGraph_body video s)) = []"
    and "metering (snd (buildGraph_body video s)) = Some (next_timer s)"
    and "next_node (snd (buildGraph_body video s)) = next_node s + 8"
    and "e \<in> set (connections s) \<Longrightarrow>
         fst e \<notin> Node ` set (nodes_values (created_nodes (next_node s))) \<Longrightarrow>
         e \<in> set (connections (snd (buildGraph_body video s)))"
    and "enabled (settings s) \<Longrightarrow> l \<in> set (processing_chain (created_nodes (next_node s))) \<Longrightarrow>
         (Node (fst l), snd l) \<in> set (connections (snd (buildGraph_body video s)))"
    and "enabled (settings s) \<Longrightarrow>
         (Node (n_outputAnalyser (created_nodes (next_node s))), Dest) \<in>
           set (connections (snd (buildGraph_body video s)))"
proof -
  let ?k = "next_node s"
  define nd where "nd = created_nodes ?k"
  define s2 where "s2 = (emit
                 [SetValue (n_inputAnalyser nd) ''fftSize'' (real fftSize),
                  SetValue (n_outputAnalyser nd) ''fftSize'' (real fftSize),
                  SetValue (n_limiter nd) ''threshold'' (-1),
                  SetValue (n_limiter nd) ''ratio'' 20,
                  SetValue (n_limiter nd) ''knee'' 0,
                  SetValue (n_limiter nd) ''attack'' (1 / 1000),
                  SetValue (n_limiter nd) ''release'' (1 / 100)]
                 (s\<lparr>next_node := ?k + 8, tapped := video # tapped s\<rparr>))\<lparr>nodes := Some nd\<rparr>"
  define s3 where "s3 = snd (applySettingsToNodes s2)"
  define route where
    "route = (if enabled (settings s3) then connectProcessing s3 else connectBypass s3)"
  define s4 where "s4 = snd route"
  define s5 where "s5 = (if ctx_state ctx = Suspended then emit [Resume] s4 else s4)"
  have s2: "nodes s2 = Some nd" "audioCtx s2 = Some ctx" "tapped s2 = video # tapped s"
    "currentVideo s2 = currentVideo s" "next_timer s2 = next_timer s" "settings s2 = settings s"
    "next_node s2 = next_node s + 8" "connections s2 = connections s"
    by (simp_all add: s2_def ctx)
  have s3: "nodes s3 = Some nd" "audioCtx s3 = Some ctx" "tapped s3 = video # tapped s"
    "currentVideo s3 = currentVideo s" "next_timer s3 = next_timer s" "settings s3 = settings s"
    "next_node s3 = next_node s + 8" "connections s3 = connections s"
    by (simp_all add: s3_def s2)
  have s4: "nodes s4 = Some nd" "audioCtx s4 = Some ctx" "tapped s4 = video # tapped s"
    "currentVideo s4 = currentVideo s" "next_timer s4 = next_timer s" "settings s4 = settings s"
    "next_node s4 = next_node s + 8"
    by (simp_all add: s4_def route_def s3)
  have s5: "nodes s5 = Some nd" "audioCtx s5 = Some ctx" "tapped s5 = video # tapped s"
    "currentVideo s5 = currentVideo s" "next_timer s5 = next_timer s" "settings s5 = settings s"
    "next_node s5 = next_node s + 8" "connections s5 = connections s4"
    by (simp_all add: s5_def s4)
  have a: "applySettingsToNodes s2 = (Done, s3)"
    using applySettingsToNodes_Done [of s2] s2 by (simp add: s3_def prod_eq_iff)
  have r: "route = (Done, s4)"
    using routing_Done [of s3] s3 by (simp add: s4_def route_def prod_eq_iff)
  have c4: "e \<in> set (connections s4)"
    if "e \<in> set (connections s)" "fst e \<notin> Node ` set (nodes_values nd)"
    using routing_keeps [OF s3(1), of e] that s3(8) by (simp add: s4_def route_def)
  have "buildGraph_body video s =
          (case applySettingsToNodes s2 of
             (Thrown, s3) \<Rightarrow> (Thrown, s3)
           | (Done, s3) \<Rightarrow>
             (case (if enabled (settings s3) then connectProcessing s3 else connectBypass s3) of
                (Thrown, s4) \<Rightarrow> (Thrown, s4)
              | (Done, s4) \<Rightarrow>
                  (case audioCtx s4 of
                     None \<Rightarrow> (Thrown, s4)
                   | Some ctx \<Rightarrow>
                       (let s5 = (if ctx_state ctx = Suspended then emit [Resume] s4 else s4)
                        in (Done, emit [ConsoleLog ''[YT Normalizer] Audio graph ready.'']
                                    (startMetering s5))))))"
    unfolding buildGraph_body_def s2_def nd_def Let_def ..
  then have b: "buildGraph_body video s =
       (Done, emit [ConsoleLog ''[YT Normalizer] Audio graph ready.''] (startMetering s5))"
    using r s4(2) by (simp add: a route_def [symmetric] s5_def)
  show "fst (buildGraph_body video s) = Done"
    and "settings (snd (buildGraph_body video s)) = settings s"
    and "nodes (snd (buildGraph_body video s)) = Some (created_nodes (next_node s))"
    and "tapped (snd (buildGraph_body video s)) = video # tapped s"
    and "audioCtx (snd (buildGraph_body video s)) = Some ctx"
    and "currentVideo (snd (buildGraph_body video s)) = currentVideo s"
    and "autoGainValue (snd (buildGraph_body video s)) = 0"
    and "rmsHistory (snd (buildGraph_body video s)) = []"
    and "metering (snd (buildGraph_body video s)) = Some (next_timer s)"
    and "next_node (snd (buildGraph_body video s)) = next_node s + 8"
    by (simp_all add: b s5 nd_def)
  show "e \<in> set (connections (snd (buildGraph_body video s)))"
    if "e \<in> set (connections s)"
      "fst e \<notin> Node ` set (nodes_values (created_nodes (next_node s)))"
    using c4 [OF that [folded nd_def]] by (simp add: b s5)
  have made: "route = connectProcessing s3" if "enabled (settings s)"
    using that by (simp add: route_def s3)
  show "(Node (fst l), snd l) \<in> set (connections (snd (buildGraph_body video s)))"
    if "enabled (settings s)" "l \<in> set (processing_chain (created_nodes (next_node s)))"
    using routing_makes(1) [OF s3(1), of l] that s3(2)
    by (simp add: b s5 s4_def made nd_def)
  show "(Node (n_outputAnalyser (created_nodes (next_node s))), Dest) \<in>
           set (connections (snd (buildGraph_body video s)))"
    if "enabled (settings s)"
    using routing_makes(2) [OF s3(1)] that s3(2)
    by (simp add: b s5 s4_def made nd_def)
qed

text \<open>The three ways \<open>buildGraph\<close> can go: already wired, the tap fails, the graph is built.\<close>

lemma buildGraph_wired:
  "currentVideo s = Some video \<Longrightarrow> audioCtx s \<noteq> None \<Longrightarrow> buildGraph video s = s"
  by (simp add: buildGraph_def)

lemma buildGraph_tap_fails:
  assumes "video \<in> set (tapped s)"
    and "\<not> (currentVideo s = Some video \<and> audioCtx s \<noteq> None)"
  shows "buildGraph video s =
           emit [ConsoleWarn ''[YT Normalizer] createMediaElementSource failed:'']
             (s\<lparr>currentVideo := Some video,
                audioCtx := Some (case audioCtx s of
                                    None \<Rightarrow> new_AudioContext
                                  | Some c \<Rightarrow> if ctx_state c = Closed then new_AudioContext else c)\<rparr>)"
  using assms by (auto simp: buildGraph_def Let_def split: option.splits)

lemma buildGraph_builds:
  assumes "video \<notin> set (tapped s)"
    and "\<not> (currentVideo s = Some video \<and> audioCtx s \<noteq> None)"
  shows "settings (buildGraph video s) = settings s"
    and "nodes (buildGraph video s) = Some (created_nodes (next_node s))"
    and "tapped (buildGraph video s) = video # tapped s"
    and "audioCtx (buildGraph video s) =
           Some (case audioCtx s of
                   None \<Rightarrow> new_AudioContext
                 | Some c \<Rightarrow> if ctx_state c = Closed then new_AudioContext else c)"
    and "currentVideo (buildGraph video s) = Some video"
    and "autoGainValue (buildGraph video s) = 0"
    and "rmsHistory (buildGraph video s) = []"
    and "next_node (buildGraph video s) = next_node s + 8"
    and "e \<in> set (connections s) \<Longrightarrow>
         fst e \<notin> Node ` set (nodes_values (created_nodes (next_node s))) \<Longrightarrow>
         e \<in> set (connections (buildGraph video s))"
    and "enabled (settings s) \<Longrightarrow> l \<in> set (processing_chain (created_nodes (next_node s))) \<Longrightarrow>
         (Node (fst l), snd l) \<in> set (connections (buildGraph video s))"
    and "enabled (settings s) \<Longrightarrow>
         (Node (n_outputAnalyser (created_nodes (next_node s))), Dest) \<in>
           set (connections (buildGraph video s))"
proof -
  define c where "c = (case audioCtx s of
                         None \<Rightarrow> new_AudioContext
                       | Some c \<Rightarrow> if ctx_state c = Closed then new_AudioContext else c)"
  define s2 where "s2 = s\<lparr>currentVideo := Some video, audioCtx := Some c\<rparr>"
  have s2: "audioCtx s2 = Some c" "tapped s2 = tapped s" "next_node s2 = next_node s"
    "settings s2 = settings s" "currentVideo s2 = Some video" "connections s2 = connections s"
    by (simp_all add: s2_def)
  note built = buildGraph_body_built [OF s2(1), where video = video]
  obtain s3 where body: "buildGraph_body video s2 = (Done, s3)"
    using built(1) by (cases "buildGraph_body video s2") simp
  have "(case audioCtx (s\<lparr>currentVideo := Some video\<rparr>) of
           None \<Rightarrow> s\<lparr>currentVideo := Some video, audioCtx := Some new_AudioContext\<rparr>
         | Some ctx \<Rightarrow>
             if ctx_state ctx = Closed
             then s\<lparr>currentVideo := Some video, audioCtx := Some new_AudioContext\<rparr>
             else s\<lparr>currentVideo := Some video\<rparr>) = s2"
    by (cases "audioCtx s") (simp_all add: s2_def c_def)
  then have b: "buildGraph video s = s3"
    using assms s2(2) by (auto simp: buildGraph_def Let_def body)
  have s3: "s3 = snd (buildGraph_body video s2)"
    by (simp add: body)
  show "settings (buildGraph video s) = settings s"
    and "nodes (buildGraph video s) = Some (created_nodes (next_node s))"
    and "tapped (buildGraph video s) = video # tapped s"
    and "audioCtx (buildGraph video s) =
           Some (case audioCtx s of
                   None \<Rightarrow> new_AudioContext
                 | Some c \<Rightarrow> if ctx_state c = Closed then new_AudioContext else c)"
    and "currentVideo (buildGraph video s) = Some video"
    and "autoGainValue (buildGraph video s) = 0"
    and "rmsHistory (buildGraph video s) = []"
    and "next_node (buildGraph video s) = next_node s + 8"
    unfolding b s3 by (simp_all add: built s2) (simp add: c_def)
  show "e \<in> set (connections (buildGraph video s))"
    if "e \<in> set (connections s)"
      "fst e \<notin> Node ` set (nodes_values (created_nodes (next_node s)))"
    unfolding b s3 using that by (intro built(11)) (simp_all add: s2)
  show "(Node (fst l), snd l) \<in> set (connections (buildGraph video s))"
    if "enabled (settings s)" "l \<in> set (processing_chain (created_nodes (next_node s)))"
    unfolding b s3 using that built(12) [of l] by (simp add: s2)
  show "(Node (n_outputAnalyser (created_nodes (next_node s))), Dest) \<in>
           set (connections (buildGraph video s))"
    if "enabled (settings s)"
    unfolding b s3 using that built(13) by (simp add: s2)
qed

lemma settings_buildGraph [simp]: "settings (buildGraph video s) = settings s"
proof (cases "currentVideo s = Some video \<and> audioCtx s \<noteq> None")
  case True
  then show ?thesis by (simp add: buildGraph_wired)
next
  case False
  then show ?thesis
    by (cases "video \<in> set (tapped s)")
       (simp_all add: buildGraph_tap_fails buildGraph_builds(1))
qed

lemma settings_tryAttach [simp]: "settings (tryAttach found s) = settings s"
  by (simp add: tryAttach_def split: option.splits prod.splits)

lemma settings_canplay [simp]: "settings (canplay video s) = settings s"
  by (simp add: canplay_def)

subsection \<open>What the message handlers do to the settings\<close>

text \<open>
  What applying the settings and re-routing both leave alone, a handler made of the two
  leaves alone, whether or not one of them throws.
\<close>

lemma apply_then_route:
  fixes f :: "state \<Rightarrow> 'a"
  assumes "\<And>t. f (snd (applySettingsToNodes t)) = f t"
    and "\<And>t. f (snd (route t)) = f t"
  shows "f (snd (case applySettingsToNodes s1 of
                   (Thrown, s2) \<Rightarrow> (None, s2)
                 | (Done, s2) \<Rightarrow>
                     (case route s2 of
                        (Thrown, s3) \<Rightarrow> (None, s3)
                      | (Done, s3) \<Rightarrow> (Some (Success (settings s3)), s3)))) = f s1"
proof -
  obtain o2 s2 where a: "applySettingsToNodes s1 = (o2, s2)"
    by (cases "applySettingsToNodes s1")
  obtain o3 s3 where r: "route s2 = (o3, s3)"
    by (cases "route s2")
  have "f s2 = f s1"
    using assms(1) [of s1] a by simp
  moreover have "f s3 = f s2"
    using assms(2) [of s2] r by simp
  ultimately show ?thesis
    using a r by (cases o2; cases o3) simp_all
qed

lemma apply_only:
  fixes f :: "state \<Rightarrow> 'a"
  assumes "\<And>t. f (snd (applySettingsToNodes t)) = f t"
  shows "f (snd (case applySettingsToNodes s1 of
                   (Thrown, s2) \<Rightarrow> (None, s2)
                 | (Done, s2) \<Rightarrow> (Some (Success (settings s2)), s2))) = f s1"
proof -
  obtain o2 s2 where a: "applySettingsToNodes s1 = (o2, s2)"
    by (cases "applySettingsToNodes s1")
  have "f s2 = f s1"
    using assms [of s1] a by simp
  then show ?thesis
    using a by (cases o2) simp_all
qed

text \<open>
  So every field that neither of the two changes is, after a message, what the handler
  stored before calling them.
\<close>

lemma onMessage_preserves:
  fixes f :: "state \<Rightarrow> 'a"
  assumes app: "\<And>t. f (snd (applySettingsToNodes t)) = f t"
    and proc: "\<And>t. f (snd (connectProcessing t)) = f t"
    and byp: "\<And>t. f (snd (connectBypass t)) = f t"
  shows "f (snd (onMessage m s)) =
           (case m of
              GetState \<Rightarrow> f s
            | UpdateSettings inc \<Rightarrow>
                f (saveSettings (s\<lparr>settings := updateSettings_merge inc (settings s)\<rparr>))
            | ApplyPreset name \<Rightarrow>
                if truthy_entry (PRESETS name)
                then f (saveSettings (s\<lparr>settings :=
                          (assign_entry (settings s) (PRESETS name))
                            \<lparr>preset := name, enabled := True\<rparr>\<rparr>))
                else f s
            | ResetSettings \<Rightarrow> f (saveSettings (s\<lparr>settings := DEFAULT_SETTINGS\<rparr>))
            | UnknownType t \<Rightarrow> f s)"
proof (cases m)
  case GetState
  then show ?thesis by (simp add: onMessage_def)
next
  case (UpdateSettings inc)
  show ?thesis
  proof (cases "in_enabled inc")
    case None
    show ?thesis
      unfolding UpdateSettings onMessage_def msg.case Let_def None option.case
      by (rule apply_only) (rule app)
  next
    case (Some en)
    have "\<And>t. f (snd (if en then connectProcessing t else connectBypass t)) = f t"
      by (simp add: proc byp)
    then show ?thesis
      unfolding UpdateSettings onMessage_def msg.case Let_def Some option.case
      by (intro apply_then_route app)
  qed
next
  case (ApplyPreset name)
  show ?thesis
  proof (cases "truthy_entry (PRESETS name)")
    case True
    show ?thesis
      unfolding ApplyPreset onMessage_def msg.case Let_def using True
      by (simp only: if_True) (intro apply_then_route app proc)
  next
    case False
    then show ?thesis by (simp add: ApplyPreset onMessage_def)
  qed
next
  case ResetSettings
  have "\<And>t. f (snd (if enabled (settings t) then connectProcessing t else connectBypass t)) = f t"
    by (simp add: proc byp)
  then show ?thesis
    unfolding ResetSettings onMessage_def msg.case Let_def
    by (intro apply_then_route app)
next
  case (UnknownType t)
  then show ?thesis by (simp add: onMessage_def)
qed

lemma settings_updateSettings:
  "settings (snd (onMessage (UpdateSettings inc) s)) = updateSettings_merge inc (settings s)"
  by (simp add: onMessage_preserves)

lemma settings_applyPreset:
  "settings (snd (onMessage (ApplyPreset name) s)) =
     (if truthy_entry (PRESETS name)
      then (assign_entry (settings s) (PRESETS name))\<lparr>preset := name, enabled := True\<rparr>
      else settings s)"
  by (simp add: onMessage_preserves)

lemma settings_resetSettings:
  "settings (snd (onMessage ResetSettings s)) = DEFAULT_SETTINGS"
  by (simp add: onMessage_preserves)

lemma rmsHistory_onMessage: "rmsHistory (snd (onMessage m s)) = rmsHistory s"
  by (cases m) (simp_all add: onMessage_preserves)

lemma preset_assign_incoming:
  "preset (assign_incoming st inc) = (case in_preset inc of Some n \<Rightarrow> n | None \<Rightarrow> preset st)"
  by (simp add: assign_incoming_def)

lemma enabled_assign_incoming:
  "enabled (assign_incoming st inc) = (case in_enabled inc of Some b \<Rightarrow> b | None \<Rightarrow> enabled st)"
  by (simp add: assign_incoming_def)

lemma preset_assign_entry: "preset (assign_entry st e) = preset st"
  by (cases e) (simp_all add: assign_preset_def)

lemma enabled_assign_entry: "enabled (assign_entry st e) = enabled st"
  by (cases e) (simp_all add: assign_preset_def)

lemma preset_fields_assign_preset: "preset_fields (assign_preset st p) = p"
  by (simp add: preset_fields_def assign_preset_def)

lemma PRESETS_Own_name: "PRESETS name = Own p \<Longrightarrow> name \<noteq> [] \<and> name \<noteq> ''custom''"
  by (auto simp: PRESETS_def object_prototype_keys_def split: if_splits)

lemma preset_updateSettings_merge:
  "preset (updateSettings_merge inc st) = (case in_preset inc of Some n \<Rightarrow> n | None \<Rightarrow> ''custom'')"
  by (simp add: updateSettings_merge_def Let_def preset_assign_incoming preset_assign_entry
           split: option.splits)

lemma updateSettings_merge_named:
  assumes "in_preset inc = Some name" and "PRESETS name = Own p"
  shows "updateSettings_merge inc st = assign_preset (assign_incoming st inc) p"
  using assms PRESETS_Own_name [OF assms(2)] by (simp add: updateSettings_merge_def Let_def)

lemma named_updateSettings_merge:
  "PRESETS (preset (updateSettings_merge inc st)) = Own p \<Longrightarrow>
   preset_fields (updateSettings_merge inc st) = p"
proof (cases "in_preset inc")
  case None
  assume "PRESETS (preset (updateSettings_merge inc st)) = Own p"
  with None show ?thesis
    by (simp add: preset_updateSettings_merge PRESETS_def object_prototype_keys_def)
next
  case (Some name)
  assume "PRESETS (preset (updateSettings_merge inc st)) = Own p"
  with Some have own: "PRESETS name = Own p"
    by (simp add: preset_updateSettings_merge)
  show ?thesis
    by (simp add: updateSettings_merge_named [OF Some own] preset_fields_assign_preset)
qed

lemma named_DEFAULT_SETTINGS:
  "PRESETS (preset DEFAULT_SETTINGS) = Own p \<Longrightarrow> preset_fields DEFAULT_SETTINGS = p"
  by (auto simp: DEFAULT_SETTINGS_def PRESETS_def preset_fields_def medium_def)

subsection \<open>The preset name after \<open>updateSettings\<close>\<close>

text \<open>
  C1 (as amended). After every \<open>updateSettings\<close> command the preset name is the string the
  update supplied under \<open>preset\<close>, and \<open>'custom'\<close> when the update has no \<open>preset\<close> key,
  whatever the values of the other fields are. So the name is \<open>'custom'\<close> exactly when the
  update carries no preset or carries \<open>'custom'\<close>; the handler never compares a field with
  the active preset's value.
\<close>

theorem updateSettings_preset_name:
  "preset (settings (snd (onMessage (UpdateSettings inc) s))) =
     (case in_preset inc of Some name \<Rightarrow> name | None \<Rightarrow> ''custom'') \<and>
   (preset (settings (snd (onMessage (UpdateSettings inc) s))) = ''custom'') =
     (in_preset inc = None \<or> in_preset inc = Some ''custom'')"
  by (simp add: settings_updateSettings preset_updateSettings_merge split: option.splits)

text \<open>
  The claim as stated fails: from the default settings (preset \<open>medium\<close>), an update that
  only carries \<open>threshold = -24\<close>, the value \<open>medium\<close> already has, supplies no field that
  differs from the active preset and still ends with the preset \<open>'custom'\<close>.
\<close>

theorem updateSettings_same_value_counterexample:
  "PRESETS (preset (settings initial_state)) = Own medium \<and>
   \<not> spec_custom_after medium (no_fields\<lparr>in_threshold := Some (-24)\<rparr>) \<and>
   preset (settings (snd (onMessage (UpdateSettings (no_fields\<lparr>in_threshold := Some (-24)\<rparr>))
                            initial_state))) = ''custom''"
  by (simp add: settings_updateSettings preset_updateSettings_merge initial_state_def
        DEFAULT_SETTINGS_def PRESETS_def spec_custom_after_def spec_field_differs_def
        no_fields_def medium_def)

subsection \<open>\<open>updateSettings\<close> with a named preset\<close>

text \<open>
  C7 (as amended). An \<open>updateSettings\<close> whose \<open>preset\<close> is \<open>light\<close>, \<open>medium\<close> or \<open>heavy\<close> sets
  the preset name and that preset's full tuple together: the preset's values win over
  any value the update carries for the same keys. \<open>enabled\<close> is not forced: it is the
  update's \<open>enabled\<close> when the update has one and stays as it was otherwise.
\<close>

theorem updateSettings_named_preset:
  assumes "in_preset inc = Some name" and "PRESETS name = Own p"
  shows "preset (settings (snd (onMessage (UpdateSettings inc) s))) = name \<and>
         preset_fields (settings (snd (onMessage (UpdateSettings inc) s))) = p \<and>
         enabled (settings (snd (onMessage (UpdateSettings inc) s))) =
           (case in_enabled inc of Some en \<Rightarrow> en | None \<Rightarrow> enabled (settings s))"
  by (simp add: settings_updateSettings updateSettings_merge_named [OF assms]
        preset_fields_assign_preset)
     (simp add: assign_preset_def preset_assign_incoming enabled_assign_incoming assms(1))

theorem updateSettings_named_preset_witness:
  "preset (settings (snd (onMessage (UpdateSettings (no_fields\<lparr>in_preset := Some ''heavy''\<rparr>))
                            initial_state))) = ''heavy'' \<and>
   preset_fields (settings (snd (onMessage (UpdateSettings (no_fields\<lparr>in_preset := Some ''heavy''\<rparr>))
                            initial_state))) = heavy \<and>
   enabled (settings (snd (onMessage (UpdateSettings (no_fields\<lparr>in_preset := Some ''heavy''\<rparr>))
                            initial_state)))"
proof -
  have a: "in_preset (no_fields\<lparr>in_preset := Some ''heavy''\<rparr>) = Some ''heavy''"
    by simp
  have b: "PRESETS ''heavy'' = Own heavy"
    by (simp add: PRESETS_def)
  show ?thesis
    using updateSettings_named_preset [OF a b, of initial_state]
    by (simp add: no_fields_def initial_state_def DEFAULT_SETTINGS_def)
qed

text \<open>
  The claim as stated fails on \<open>enabled\<close>: an update with the preset \<open>light\<close> and
  \<open>enabled = false\<close> leaves processing disabled.
\<close>

theorem updateSettings_named_preset_enabled_counterexample:
  "PRESETS ''light'' = Own light \<and>
   \<not> enabled (settings (snd (onMessage
       (UpdateSettings (no_fields\<lparr>in_preset := Some ''light'', in_enabled := Some False\<rparr>))
       initial_state)))"
  by (simp add: settings_updateSettings updateSettings_merge_def PRESETS_def Let_def
        assign_preset_def enabled_assign_incoming)

subsection \<open>The preset invariant\<close>

lemma named_ok_step: "named_ok (settings s) \<Longrightarrow> named_ok (settings (step s e))"
proof (cases e)
  case (Message m)
  assume inv: "named_ok (settings s)"
  show ?thesis
  proof (cases m)
    case GetState
    with Message inv show ?thesis by (simp add: onMessage_def)
  next
    case (UpdateSettings inc)
    with Message show ?thesis
      by (simp add: settings_updateSettings named_ok_def named_updateSettings_merge)
  next
    case (ApplyPreset name)
    with Message inv show ?thesis
      by (simp add: settings_applyPreset named_ok_def preset_fields_def assign_preset_def)
  next
    case ResetSettings
    with Message show ?thesis
      by (simp add: settings_resetSettings named_ok_def named_DEFAULT_SETTINGS)
  next
    case (UnknownType t)
    with Message inv show ?thesis by (simp add: onMessage_def)
  qed
qed simp_all

lemma named_ok_run: "named_ok (settings s) \<Longrightarrow> named_ok (settings (run evs s))"
  unfolding run_def by (induction evs arbitrary: s) (simp_all add: named_ok_step)

text \<open>
  C2. In every state reached from the initial state (the default settings) by any
  sequence of events, commands included, a preset name of the table comes with that
  preset's values in the five compressor fields, \<open>makeupGain\<close>, \<open>autoGain\<close> and
  \<open>targetLevel\<close>.
\<close>

theorem named_preset_invariant:
  "PRESETS (preset (settings (run evs initial_state))) = Own p \<Longrightarrow>
   preset_fields (settings (run evs initial_state)) = p"
proof -
  have "named_ok (settings initial_state)"
    by (simp add: named_ok_def initial_state_def named_DEFAULT_SETTINGS)
  then have "named_ok (settings (run evs initial_state))"
    by (rule named_ok_run)
  then show "PRESETS (preset (settings (run evs initial_state))) = Own p \<Longrightarrow>
     preset_fields (settings (run evs initial_state)) = p"
    by (simp add: named_ok_def)
qed

theorem named_preset_invariant_witness:
  "PRESETS (preset (settings (run [Message (UpdateSettings (no_fields\<lparr>in_ratio := Some 7\<rparr>)),
                                    Message (ApplyPreset ''heavy'')] initial_state))) = Own heavy \<and>
   preset_fields (settings (run [Message (UpdateSettings (no_fields\<lparr>in_ratio := Some 7\<rparr>)),
                                 Message (ApplyPreset ''heavy'')] initial_state)) = heavy"
proof -
  have a: "PRESETS (preset (settings (run [Message (UpdateSettings (no_fields\<lparr>in_ratio := Some 7\<rparr>)),
                                    Message (ApplyPreset ''heavy'')] initial_state))) = Own heavy"
    by (simp add: run_def settings_applyPreset PRESETS_def)
  show ?thesis
    using a named_preset_invariant [OF a] by simp
qed

subsection \<open>\<open>applyPreset\<close> with a name that is not in the table\<close>

text \<open>
  A name that \<open>PRESETS\<close> does not resolve at all changes nothing and is answered with the
  current settings.
\<close>

lemma applyPreset_missing_noop:
  "PRESETS name = Missing \<Longrightarrow> onMessage (ApplyPreset name) s = (Some (Success (settings s)), s)"
  by (simp add: onMessage_def)

text \<open>
  C9. The no-op does not hold for every unknown name. \<open>'constructor'\<close> is no preset, but
  \<open>PRESETS['constructor']\<close> is truthy, so the handler takes the branch of a known preset:
  it stores the name as the preset, writes the settings to the store and goes on to
  re-apply and re-route; and where processing had been disabled it forces \<open>enabled\<close>.
\<close>

theorem applyPreset_inherited_name:
  "PRESETS ''constructor'' = Inherited \<and>
   settings (snd (onMessage (ApplyPreset ''constructor'') initial_state)) =
     DEFAULT_SETTINGS\<lparr>preset := ''constructor''\<rparr> \<and>
   trace (snd (onMessage (ApplyPreset ''constructor'') initial_state)) =
     [StorageSet (DEFAULT_SETTINGS\<lparr>preset := ''constructor''\<rparr>)] \<and>
   \<not> enabled (settings (run [Message (UpdateSettings enabled_off)] initial_state)) \<and>
   enabled (settings (run [Message (UpdateSettings enabled_off),
                           Message (ApplyPreset ''constructor'')] initial_state))"
proof -
  have inherited: "PRESETS ''constructor'' = Inherited"
    by (simp add: PRESETS_def object_prototype_keys_def)
  have "\<not> enabled (updateSettings_merge enabled_off DEFAULT_SETTINGS)"
    by (simp add: updateSettings_merge_def enabled_off_def no_fields_def assign_incoming_def
          Let_def)
  then have "\<not> enabled (settings (run [Message (UpdateSettings enabled_off)] initial_state))"
    by (simp add: run_def settings_updateSettings initial_state_def)
  moreover have "enabled (settings (run [Message (UpdateSettings enabled_off),
                           Message (ApplyPreset ''constructor'')] initial_state))"
    by (simp add: run_def settings_applyPreset inherited)
  moreover have "settings (snd (onMessage (ApplyPreset ''constructor'') initial_state)) =
     DEFAULT_SETTINGS\<lparr>preset := ''constructor''\<rparr>"
    by (simp add: settings_applyPreset inherited initial_state_def DEFAULT_SETTINGS_def)
  moreover have "trace (snd (onMessage (ApplyPreset ''constructor'') initial_state)) =
     [StorageSet (DEFAULT_SETTINGS\<lparr>preset := ''constructor''\<rparr>)]"
    by (simp add: inherited onMessage_def Let_def saveSettings_def emit_def
          applySettingsToNodes_def connectProcessing_eq initial_state_def DEFAULT_SETTINGS_def)
  ultimately show ?thesis
    using inherited by blast
qed

subsection \<open>The level meter\<close>

lemma foldl_squares: "foldl (\<lambda>sum x. sum + x * x) (a::real) xs = a + (\<Sum>x\<leftarrow>xs. x\<^sup>2)"
  by (induction xs arbitrary: a) (simp_all add: power2_eq_square add.assoc)

lemma calcRMS_rms_spec: "calcRMS buffer = rms_spec buffer"
  by (simp add: calcRMS_def rms_spec_def foldl_squares)

lemma sum_squares_nonneg: "0 \<le> (\<Sum>x\<leftarrow>xs. (x::real)\<^sup>2)"
  by (induction xs) simp_all

lemma sum_squares_zero_iff: "(\<Sum>x\<leftarrow>xs. (x::real)\<^sup>2) = 0 \<longleftrightarrow> (\<forall>x\<in>set xs. x = 0)"
proof (induction xs)
  case Nil
  show ?case by simp
next
  case (Cons a xs)
  have "a\<^sup>2 + (\<Sum>x\<leftarrow>xs. x\<^sup>2) = 0 \<longleftrightarrow> a\<^sup>2 = 0 \<and> (\<Sum>x\<leftarrow>xs. x\<^sup>2) = 0"
    using sum_squares_nonneg [of xs] by (simp add: add_nonneg_eq_0_iff)
  with Cons show ?case by simp
qed

lemma rms_spec_nonneg: "0 \<le> rms_spec xs"
  by (simp add: rms_spec_def sum_squares_nonneg)

lemma rms_spec_zero_iff: "xs \<noteq> [] \<Longrightarrow> rms_spec xs = 0 \<longleftrightarrow> (\<forall>x\<in>set xs. x = 0)"
  by (simp add: rms_spec_def sum_squares_zero_iff)

lemma log10_floor: "log 10 (1 / 10000000000) = -10"
proof -
  have "log 10 (1 / (10::real) ^ 10) = - log 10 (10 ^ 10)"
    by (rule log_recip)
  also have "log 10 ((10::real) ^ 10) = real 10"
    by (rule log_pow_cancel) simp_all
  finally show ?thesis by simp
qed

lemma linearToDB_zero: "linearToDB 0 = -200"
  by (simp add: linearToDB_def log10_floor)

lemma fftSize_pos [simp]: "0 < fftSize"
  by (simp add: fftSize_def)

lemma rms_spec_replicate: "0 < n \<Longrightarrow> rms_spec (replicate n c) = \<bar>c\<bar>"
  by (simp add: rms_spec_def sum_list_replicate comp_def)

text \<open>
  C5 (as amended). For a block of \<open>N > 0\<close> samples the level meter returns
  \<open>20 log10(rms)\<close> when the root mean square is not zero and \<open>20 log10(1e-10) = -200\<close> when
  it is zero: the fallback replaces a zero, it is not a floor. The reading agrees with
  \<open>20 log10(max(rms, 1e-10))\<close> whenever the root mean square is zero or at least \<open>1e-10\<close>,
  and on a block of zeros it is \<open>-200\<close>.
\<close>

theorem level_meter_value:
  assumes "buffer \<noteq> []"
  shows "linearToDB (calcRMS buffer) =
           (if rms_spec buffer = 0 then -200 else 20 * log 10 (rms_spec buffer)) \<and>
         (rms_spec buffer = 0 \<or> 1 / 10 ^ 10 \<le> rms_spec buffer \<longrightarrow>
            linearToDB (calcRMS buffer) = level_meter_spec buffer) \<and>
         ((\<forall>x\<in>set buffer. x = 0) \<longrightarrow> linearToDB (calcRMS buffer) = -200)"
proof (intro conjI impI)
  show v: "linearToDB (calcRMS buffer) =
           (if rms_spec buffer = 0 then -200 else 20 * log 10 (rms_spec buffer))"
    by (simp add: calcRMS_rms_spec linearToDB_def log10_floor)
  show "linearToDB (calcRMS buffer) = level_meter_spec buffer"
    if "rms_spec buffer = 0 \<or> 1 / 10 ^ 10 \<le> rms_spec buffer"
    using that
  proof
    assume "rms_spec buffer = 0"
    then show ?thesis
      by (simp add: v level_meter_spec_def log10_floor)
  next
    assume ge: "1 / 10 ^ 10 \<le> rms_spec buffer"
    then have "rms_spec buffer \<noteq> 0" by auto
    moreover have "max (rms_spec buffer) (1 / 10 ^ 10) = rms_spec buffer"
      using ge by (simp add: max_def)
    ultimately show ?thesis
      by (simp add: v level_meter_spec_def)
  qed
  show "linearToDB (calcRMS buffer) = -200" if "\<forall>x\<in>set buffer. x = 0"
    using that assms by (simp add: v rms_spec_zero_iff)
qed

theorem level_meter_value_witness:
  "replicate fftSize (0::real) \<noteq> [] \<and>
   rms_spec (replicate fftSize 0) = 0 \<and>
   linearToDB (calcRMS (replicate fftSize 0)) = -200 \<and>
   linearToDB (calcRMS (replicate fftSize 0)) = level_meter_spec (replicate fftSize 0)"
proof -
  have a: "replicate fftSize (0::real) \<noteq> []" by simp
  have b: "\<forall>x\<in>set (replicate fftSize (0::real)). x = 0" by (simp add:)
  have c: "rms_spec (replicate fftSize 0) = 0" by (simp add: rms_spec_replicate)
  show ?thesis
    using level_meter_value [OF a] a b c by simp
qed

lemma log10_quiet: "log 10 (1 / 1000000000000) = -12"
proof -
  have "log 10 (1 / (10::real) ^ 12) = - log 10 (10 ^ 12)"
    by (rule log_recip)
  also have "log 10 ((10::real) ^ 12) = real 12"
    by (rule log_pow_cancel) simp_all
  finally show ?thesis by simp
qed

text \<open>
  The claim as stated fails below the floor: a block whose samples are all \<open>1e-12\<close> reads
  \<open>-240\<close> dB, where the floored formula gives \<open>-200\<close>.
\<close>

theorem level_meter_floor_counterexample:
  "linearToDB (calcRMS (replicate fftSize (1 / 10 ^ 12))) = -240 \<and>
   level_meter_spec (replicate fftSize (1 / 10 ^ 12)) = -200"
proof -
  have r: "rms_spec (replicate fftSize (1 / 10 ^ 12)) = 1 / 10 ^ 12"
    by (simp add: rms_spec_replicate)
  have m: "max (1 / 10 ^ 12) (1 / 10 ^ 10) = (1 / 10 ^ 10 :: real)"
    by (simp add: max_def)
  show ?thesis
    unfolding calcRMS_rms_spec level_meter_spec_def r m
    by (simp add: linearToDB_def log10_quiet log10_floor)
qed

subsection \<open>The two concrete runs\<close>

lemma one_graph_buildGraph: "one_graph = buildGraph 1 initial_state"
  by (simp add: one_graph_def run_def tryAttach_def initial_state_def)

lemma one_graph_fields:
  "settings one_graph = DEFAULT_SETTINGS"
  "nodes one_graph = Some (created_nodes 0)"
  "audioCtx one_graph = Some new_AudioContext"
  "currentVideo one_graph = Some 1"
  "tapped one_graph = [1]"
  "next_node one_graph = 8"
  "autoGainValue one_graph = 0"
  "rmsHistory one_graph = []"
proof -
  have a: "1 \<notin> set (tapped initial_state)"
    and b: "\<not> (currentVideo initial_state = Some 1 \<and> audioCtx initial_state \<noteq> None)"
    by (simp_all add: initial_state_def)
  note built = buildGraph_builds [OF a b]
  show "settings one_graph = DEFAULT_SETTINGS"
    "nodes one_graph = Some (created_nodes 0)"
    "audioCtx one_graph = Some new_AudioContext"
    "currentVideo one_graph = Some 1"
    "tapped one_graph = [1]"
    "next_node one_graph = 8"
    "autoGainValue one_graph = 0"
    "rmsHistory one_graph = []"
    unfolding one_graph_buildGraph using built
    by (simp_all add: initial_state_def)
qed

lemma two_graphs_buildGraph: "two_graphs = buildGraph 2 one_graph"
proof -
  have "two_graphs = tryAttach (Some (2, 4)) one_graph"
    by (simp add: two_graphs_def one_graph_def run_def)
  then show ?thesis
    using one_graph_fields(4) by (simp add: tryAttach_def)
qed

subsection \<open>The auto-gain step\<close>

lemma foldl_add: "foldl (\<lambda>a b. a + b) (a::real) xs = a + sum_list xs"
  by (induction xs arbitrary: a) (simp_all add: add.assoc)

lemma clamp_spec_clamp: "max (-24) (min 24 x) = spec_clamp x"
  by (simp add: spec_clamp_def max_def min_def)

lemma tick_active:
  assumes "auto_gain_active inBuf s"
  shows "rmsHistory (tick inBuf outBuf red s) = spec_push (rmsHistory s) (linearToDB (calcRMS inBuf))"
    and "autoGainValue (tick inBuf outBuf red s) =
           spec_clamp (autoGainValue s +
             (targetLevel (settings s) -
                mean_spec (spec_push (rmsHistory s) (linearToDB (calcRMS inBuf))) -
              autoGainValue s) * (8 / 100))"
    and "settings (tick inBuf outBuf red s) = settings s"
    and "audioCtx (tick inBuf outBuf red s) = audioCtx s"
    and "nodes (tick inBuf outBuf red s) = nodes s"
  using assms
  by (auto simp: auto_gain_active_def tick_def Let_def emit_def spec_push_def mean_spec_def
        RMS_HISTORY_LEN_def foldl_add clamp_spec_clamp)

lemma tick_idle:
  assumes "\<not> auto_gain_active inBuf s"
  shows "rmsHistory (tick inBuf outBuf red s) = rmsHistory s"
    and "autoGainValue (tick inBuf outBuf red s) = autoGainValue s"
  using assms
  by (auto simp: auto_gain_active_def tick_def Let_def split: option.splits)

text \<open>
  C3. On a tick that has a measurement above the silence floor while processing and
  auto-gain are on, the window takes the input loudness and drops its oldest entry beyond
  20 entries, and the auto-gain value moves by 0.08 of its distance to
  \<open>targetLevel - mean(window)\<close> and is clamped to \<open>[-24, 24]\<close>. On any other tick the window
  and the auto-gain value stay as they are.
\<close>

theorem tick_auto_gain:
  "(auto_gain_active inBuf s \<longrightarrow>
      rmsHistory (tick inBuf outBuf red s) =
        spec_push (rmsHistory s) (linearToDB (calcRMS inBuf)) \<and>
      autoGainValue (tick inBuf outBuf red s) =
        spec_clamp (autoGainValue s +
          (targetLevel (settings s) -
             mean_spec (spec_push (rmsHistory s) (linearToDB (calcRMS inBuf))) -
           autoGainValue s) * (8 / 100))) \<and>
   (\<not> auto_gain_active inBuf s \<longrightarrow>
      rmsHistory (tick inBuf outBuf red s) = rmsHistory s \<and>
      autoGainValue (tick inBuf outBuf red s) = autoGainValue s)"
  using tick_active(1,2) [of inBuf s outBuf red] tick_idle [of inBuf s outBuf red]
  by blast

lemma calcRMS_replicate: "0 < n \<Longrightarrow> calcRMS (replicate n c) = \<bar>c\<bar>"
  by (simp add: calcRMS_rms_spec rms_spec_replicate)

lemma log10_tenth: "log 10 (1 / 10) = - 1"
  using log_recip [of 10 10] by simp

lemma loud_block_level:
  "calcRMS loud_block = 1 / 10" "linearToDB (1 / 10) = - 20"
  by (simp_all add: loud_block_def calcRMS_replicate linearToDB_def log10_tenth)

lemma silent_block_level: "calcRMS silent_block = 0"
  by (simp add: silent_block_def calcRMS_replicate)

theorem tick_auto_gain_witness:
  "auto_gain_active loud_block one_graph \<and>
   rmsHistory (tick loud_block silent_block 0 one_graph) = [- 20] \<and>
   autoGainValue (tick loud_block silent_block 0 one_graph) = 12 / 25 \<and>
   \<not> auto_gain_active silent_block one_graph \<and>
   rmsHistory (tick silent_block silent_block 0 one_graph) = rmsHistory one_graph \<and>
   autoGainValue (tick silent_block silent_block 0 one_graph) = autoGainValue one_graph"
proof -
  have on: "auto_gain_active loud_block one_graph"
    by (simp add: auto_gain_active_def one_graph_fields loud_block_level DEFAULT_SETTINGS_def)
  have off: "\<not> auto_gain_active silent_block one_graph"
    by (simp add: auto_gain_active_def silent_block_level)
  show ?thesis
    using on off tick_auto_gain [of loud_block one_graph silent_block 0]
      tick_auto_gain [of silent_block one_graph silent_block 0]
    by (simp add: one_graph_fields loud_block_level spec_push_def mean_spec_def spec_clamp_def
          DEFAULT_SETTINGS_def)
qed

text \<open>The window never grows beyond its capacity.\<close>

lemma tick_window_length:
  "length (rmsHistory s) \<le> RMS_HISTORY_LEN \<Longrightarrow>
   length (rmsHistory (tick inBuf outBuf red s)) \<le> RMS_HISTORY_LEN"
  by (auto simp: tick_def Let_def emit_def split: option.splits)

subsection \<open>A constant input loudness\<close>

lemma mean_spec_replicate: "0 < k \<Longrightarrow> mean_spec (replicate k c) = c"
  by (simp add: mean_spec_def sum_list_replicate)

lemma spec_push_replicate:
  "spec_push (replicate (min n 20) c) c = replicate (min (Suc n) 20) c"
proof (cases "n < 20")
  case True
  then show ?thesis
    by (simp add: spec_push_def min_def flip: replicate_append_same)
next
  case False
  then have "min n 20 = 20" "min (Suc n) 20 = 20" by simp_all
  moreover have "tl (replicate 20 c @ [c]) = replicate 20 c"
    by (simp add: replicate_append_same)
  ultimately show ?thesis
    by (simp add: spec_push_def)
qed

lemma closed_form_bounds:
  "0 \<le> 10 * (1 - (23 / 25 :: real) ^ n)" "10 * (1 - (23 / 25 :: real) ^ n) \<le> 10"
  by (simp_all add: power_le_one)

lemma spec_clamp_id: "- 24 \<le> x \<Longrightarrow> x \<le> 24 \<Longrightarrow> spec_clamp x = x"
  by (simp add: spec_clamp_def)

text \<open>
  With a constant loudness ten decibels under the target, the state after \<open>n\<close> ticks is
  known in closed form.
\<close>

lemma ticks_constant_loudness:
  assumes graph: "audioCtx s \<noteq> None" "nodes s \<noteq> None"
    and on: "enabled (settings s)" "autoGain (settings s)"
    and start: "autoGainValue s = 0" "rmsHistory s = []"
    and loud: "\<And>n. calcRMS (inBuf n) > 5 / 10000"
    and level: "\<And>n. linearToDB (calcRMS (inBuf n)) = targetLevel (settings s) - 10"
  shows "settings (ticks inBuf outBuf red n s) = settings s \<and>
         audioCtx (ticks inBuf outBuf red n s) = audioCtx s \<and>
         nodes (ticks inBuf outBuf red n s) = nodes s \<and>
         rmsHistory (ticks inBuf outBuf red n s) =
           replicate (min n 20) (targetLevel (settings s) - 10) \<and>
         autoGainValue (ticks inBuf outBuf red n s) = 10 * (1 - (23 / 25) ^ n)"
proof (induction n)
  case 0
  show ?case using start by simp
next
  case (Suc n)
  let ?t = "ticks inBuf outBuf red n s"
  let ?L = "targetLevel (settings s) - 10"
  have active: "auto_gain_active (inBuf n) ?t"
    using Suc graph on loud [of n] by (simp add: auto_gain_active_def)
  have window: "rmsHistory (tick (inBuf n) (outBuf n) (red n) ?t) = replicate (min (Suc n) 20) ?L"
    using Suc by (simp add: tick_active(1) [OF active] level spec_push_replicate)
  have mean: "mean_spec (replicate (min (Suc n) 20) ?L) = ?L"
    by (rule mean_spec_replicate) simp
  have st: "settings ?t = settings s"
    and hist: "rmsHistory ?t = replicate (min n 20) ?L"
    and prev: "autoGainValue ?t = 10 * (1 - (23 / 25) ^ n)"
    using Suc by blast+
  have "autoGainValue (tick (inBuf n) (outBuf n) (red n) ?t) =
          spec_clamp (10 * (1 - (23 / 25) ^ n) + (?L + 10 - ?L - 10 * (1 - (23 / 25) ^ n)) * (8 / 100))"
    by (simp only: tick_active(2) [OF active] level st hist prev spec_push_replicate mean)
       simp
  also have "10 * (1 - (23 / 25) ^ n) + (?L + 10 - ?L - 10 * (1 - (23 / 25) ^ n)) * (8 / 100) =
               10 * (1 - (23 / 25 :: real) ^ Suc n)"
    by (simp add: algebra_simps)
  also have "spec_clamp (10 * (1 - (23 / 25) ^ Suc n)) = 10 * (1 - (23 / 25) ^ Suc n)"
    using closed_form_bounds [of "Suc n"] by (intro spec_clamp_id) linarith+
  finally have gain: "autoGainValue (tick (inBuf n) (outBuf n) (red n) ?t) =
                        10 * (1 - (23 / 25) ^ Suc n)" .
  show ?case
    using Suc window gain by (simp add: tick_active(3-5) [OF active] del: power_Suc)
qed

lemma closed_form_mono: "10 * (1 - (23 / 25 :: real) ^ n) \<le> 10 * (1 - (23 / 25) ^ Suc n)"
proof -
  have "(23 / 25 :: real) ^ Suc n \<le> (23 / 25) ^ n"
    by (rule power_decreasing) simp_all
  then show ?thesis by (simp del: power_Suc)
qed

lemma closed_form_limit: "(\<lambda>n. 10 * (1 - (23 / 25 :: real) ^ n)) \<longlonglongrightarrow> 10"
proof -
  have "(\<lambda>n. (23 / 25 :: real) ^ n) \<longlonglongrightarrow> 0"
    using LIMSEQ_realpow_zero [of "23 / 25"] by simp
  then have "(\<lambda>n. 1 - (23 / 25 :: real) ^ n) \<longlonglongrightarrow> 1 - 0"
    by (rule tendsto_diff [OF tendsto_const])
  then have "(\<lambda>n. 10 * (1 - (23 / 25 :: real) ^ n)) \<longlonglongrightarrow> 10 * (1 - 0)"
    by (rule tendsto_mult_left)
  then show ?thesis by simp
qed

text \<open>
  C6. From an auto-gain value of 0 and an empty window, with processing and auto-gain
  on, ticks that all measure the loudness \<open>targetLevel - 10\<close> dB above the silence floor
  make the auto-gain value non-decreasing from tick to tick, keep it within \<open>[-24, 24]\<close>
  (indeed below 10), and let it converge to \<open>+10\<close> dB.
\<close>

theorem constant_loudness_converges:
  assumes "audioCtx s \<noteq> None" and "nodes s \<noteq> None"
    and "enabled (settings s)" and "autoGain (settings s)"
    and "autoGainValue s = 0" and "rmsHistory s = []"
    and "\<And>n. calcRMS (inBuf n) > 5 / 10000"
    and "\<And>n. linearToDB (calcRMS (inBuf n)) = targetLevel (settings s) - 10"
  shows "(\<forall>n. autoGainValue (ticks inBuf outBuf red n s) \<le>
              autoGainValue (ticks inBuf outBuf red (Suc n) s)) \<and>
         (\<forall>n. - 24 \<le> autoGainValue (ticks inBuf outBuf red n s) \<and>
              autoGainValue (ticks inBuf outBuf red n s) \<le> 24) \<and>
         (\<forall>n. autoGainValue (ticks inBuf outBuf red n s) \<le> 10) \<and>
         (\<lambda>n. autoGainValue (ticks inBuf outBuf red n s)) \<longlonglongrightarrow> 10"
proof -
  have gain: "autoGainValue (ticks inBuf outBuf red n s) = 10 * (1 - (23 / 25) ^ n)" for n
    using ticks_constant_loudness [OF assms, where outBuf = outBuf and red = red and n = n] by simp
  have "autoGainValue (ticks inBuf outBuf red n s) \<le>
          autoGainValue (ticks inBuf outBuf red (Suc n) s)" for n
    unfolding gain by (rule closed_form_mono)
  moreover have "- 24 \<le> autoGainValue (ticks inBuf outBuf red n s) \<and>
                 autoGainValue (ticks inBuf outBuf red n s) \<le> 24" for n
    unfolding gain using closed_form_bounds [of n] by linarith
  moreover have "autoGainValue (ticks inBuf outBuf red n s) \<le> 10" for n
    unfolding gain by (rule closed_form_bounds)
  moreover have "(\<lambda>n. autoGainValue (ticks inBuf outBuf red n s)) \<longlonglongrightarrow> 10"
    unfolding gain by (rule closed_form_limit)
  ultimately show ?thesis by blast
qed

lemma steady_block_level:
  "calcRMS steady_block > 5 / 10000" "linearToDB (calcRMS steady_block) = - 24"
proof -
  have r: "calcRMS steady_block = 10 powr (- 6 / 5)"
    by (simp add: steady_block_def calcRMS_replicate)
  have lt: "(10::real) powr (- 2) < 10 powr (- 6 / 5)"
    by (rule powr_less_mono) simp_all
  have eq: "(10::real) powr (- 2) = 1 / 100"
    by (simp add: powr_minus_divide)
  show "calcRMS steady_block > 5 / 10000"
    unfolding r using lt eq by linarith
  show "linearToDB (calcRMS steady_block) = - 24"
    unfolding r by (simp add: linearToDB_def)
qed

theorem constant_loudness_converges_witness:
  "audioCtx one_graph \<noteq> None \<and> nodes one_graph \<noteq> None \<and>
   enabled (settings one_graph) \<and> autoGain (settings one_graph) \<and>
   autoGainValue one_graph = 0 \<and> rmsHistory one_graph = [] \<and>
   calcRMS steady_block > 5 / 10000 \<and>
   linearToDB (calcRMS steady_block) = targetLevel (settings one_graph) - 10 \<and>
   (\<forall>n. autoGainValue (ticks (\<lambda>_. steady_block) (\<lambda>_. steady_block) (\<lambda>_. 0) n one_graph) \<le>
        autoGainValue (ticks (\<lambda>_. steady_block) (\<lambda>_. steady_block) (\<lambda>_. 0) (Suc n) one_graph)) \<and>
   (\<forall>n. - 24 \<le> autoGainValue (ticks (\<lambda>_. steady_block) (\<lambda>_. steady_block) (\<lambda>_. 0) n one_graph) \<and>
        autoGainValue (ticks (\<lambda>_. steady_block) (\<lambda>_. steady_block) (\<lambda>_. 0) n one_graph) \<le> 24) \<and>
   (\<lambda>n. autoGainValue (ticks (\<lambda>_. steady_block) (\<lambda>_. steady_block) (\<lambda>_. 0) n one_graph))
     \<longlonglongrightarrow> 10"
proof -
  have g: "audioCtx one_graph \<noteq> None" "nodes one_graph \<noteq> None"
    "enabled (settings one_graph)" "autoGain (settings one_graph)"
    "autoGainValue one_graph = 0" "rmsHistory one_graph = []"
    by (simp_all add: one_graph_fields DEFAULT_SETTINGS_def)
  have l: "\<And>n :: nat. calcRMS steady_block > 5 / 10000"
    "\<And>n :: nat. linearToDB (calcRMS steady_block) = targetLevel (settings one_graph) - 10"
    using steady_block_level by (simp_all add: one_graph_fields DEFAULT_SETTINGS_def)
  show ?thesis
    using constant_loudness_converges
      [of one_graph "\<lambda>_. steady_block" "\<lambda>_. steady_block" "\<lambda>_. 0", OF g l]
      g l
    by simp
qed

subsection \<open>Turning auto-gain off\<close>

lemma parameter_writes_spare_autoGain:
  assumes "n_autoGain nd \<noteq> n_makeupGain nd" and "n_autoGain nd \<noteq> n_preGain nd"
  shows "SetValue (n_autoGain nd) ''gain'' v \<notin> set (parameter_writes nd st)"
  using assms by (simp add: parameter_writes_def)

lemma routing_spares_values: "list_all is_routing r \<Longrightarrow> SetValue n p v \<notin> set r"
  by (auto simp: list_all_iff)

text \<open>
  The trace of an \<open>updateSettings\<close> that leaves auto-gain off while a graph exists: the
  store write, the eight parameter writes, the ramp of the auto-gain stage, and then
  routing calls only.
\<close>

lemma updateSettings_autoGain_off:
  assumes nd: "nodes s = Some nd" and ctx: "audioCtx s = Some ctx"
    and off: "\<not> autoGain (updateSettings_merge inc (settings s))"
  shows "autoGainValue (snd (onMessage (UpdateSettings inc) s)) = 0"
    and "\<exists>r. new_trace s (snd (onMessage (UpdateSettings inc) s)) =
               StorageSet (updateSettings_merge inc (settings s)) #
               parameter_writes nd (updateSettings_merge inc (settings s)) @
               SetTargetAtTime (n_autoGain nd) 1 (currentTime ctx) (5 / 100) # r \<and>
             list_all is_routing r"
proof -
  define st' where "st' = updateSettings_merge inc (settings s)"
  define s1 where "s1 = saveSettings (s\<lparr>settings := st'\<rparr>)"
  define s2 where "s2 = emit (parameter_writes nd st' @
                       [SetTargetAtTime (n_autoGain nd) 1 (currentTime ctx) (5 / 100)])
                   (s1\<lparr>autoGainValue := 0\<rparr>)"
  have s1: "nodes s1 = Some nd" "audioCtx s1 = Some ctx" "settings s1 = st'"
    "trace s1 = trace s @ [StorageSet st']"
    by (simp_all add: s1_def nd ctx)
  have a: "applySettingsToNodes s1 = (Done, s2)"
    using off by (simp add: applySettingsToNodes_graph [OF s1(1,2)] s1(3) s2_def st'_def)
  have s2: "nodes s2 \<noteq> None" "audioCtx s2 \<noteq> None" "autoGainValue s2 = 0"
    "trace s2 = trace s @ StorageSet st' # parameter_writes nd st' @
                  [SetTargetAtTime (n_autoGain nd) 1 (currentTime ctx) (5 / 100)]"
    by (simp_all add: s2_def s1)
  have "\<exists>r. autoGainValue (snd (onMessage (UpdateSettings inc) s)) = 0 \<and>
            trace (snd (onMessage (UpdateSettings inc) s)) = trace s2 @ r \<and>
            list_all is_routing r"
  proof (cases "in_enabled inc")
    case None
    have "snd (onMessage (UpdateSettings inc) s) = s2"
      by (simp add: onMessage_def None a s1_def [symmetric] st'_def [symmetric])
    then show ?thesis
      using s2(3) by (intro exI [of _ "[]"]) simp
  next
    case (Some en)
    define route where "route = (if en then connectProcessing s2 else connectBypass s2)"
    have d: "fst route = Done"
      using routing_Done [OF s2(1,2)] by (simp add: route_def)
    have "\<exists>r. trace (snd route) = trace s2 @ r \<and> list_all is_routing r"
      unfolding route_def using routing_trace [of s2] by (cases en) simp_all
    then obtain r where r: "trace (snd route) = trace s2 @ r" "list_all is_routing r"
      by blast
    have "snd (onMessage (UpdateSettings inc) s) = snd route"
      using d
      by (cases route)
         (simp add: onMessage_def Some a s1_def [symmetric] st'_def [symmetric]
            route_def [symmetric])
    moreover have "autoGainValue (snd route) = 0"
      using s2(3) by (simp add: route_def)
    ultimately show ?thesis
      using r by auto
  qed
  then obtain r where r: "autoGainValue (snd (onMessage (UpdateSettings inc) s)) = 0"
    "trace (snd (onMessage (UpdateSettings inc) s)) = trace s2 @ r" "list_all is_routing r"
    by blast
  show "autoGainValue (snd (onMessage (UpdateSettings inc) s)) = 0"
    by (rule r(1))
  have "new_trace s (snd (onMessage (UpdateSettings inc) s)) =
          StorageSet st' # parameter_writes nd st' @
          SetTargetAtTime (n_autoGain nd) 1 (currentTime ctx) (5 / 100) # r"
    by (simp add: new_trace_def r(2) s2(4))
  then show "\<exists>r. new_trace s (snd (onMessage (UpdateSettings inc) s)) =
               StorageSet (updateSettings_merge inc (settings s)) #
               parameter_writes nd (updateSettings_merge inc (settings s)) @
               SetTargetAtTime (n_autoGain nd) 1 (currentTime ctx) (5 / 100) # r \<and>
             list_all is_routing r"
    using r(3) unfolding st'_def by blast
qed

text \<open>
  What such an update does do: the running auto-gain value is reset to 0 and the
  auto-gain stage is ramped to unity, by \<open>setTargetAtTime(1, currentTime, 0.05)\<close> on the
  stage's gain, which is never set directly.
\<close>

lemma autoGain_off_resets_value_and_ramps:
  assumes "nodes s = Some nd" and "audioCtx s = Some ctx"
    and "\<not> autoGain (updateSettings_merge inc (settings s))"
    and "n_autoGain nd \<noteq> n_makeupGain nd" and "n_autoGain nd \<noteq> n_preGain nd"
  shows "autoGainValue (snd (onMessage (UpdateSettings inc) s)) = 0 \<and>
         SetTargetAtTime (n_autoGain nd) 1 (currentTime ctx) (5 / 100) \<in>
           set (new_trace s (snd (onMessage (UpdateSettings inc) s))) \<and>
         (\<forall>v. SetValue (n_autoGain nd) ''gain'' v \<notin>
           set (new_trace s (snd (onMessage (UpdateSettings inc) s))))"
proof -
  obtain r where r: "new_trace s (snd (onMessage (UpdateSettings inc) s)) =
               StorageSet (updateSettings_merge inc (settings s)) #
               parameter_writes nd (updateSettings_merge inc (settings s)) @
               SetTargetAtTime (n_autoGain nd) 1 (currentTime ctx) (5 / 100) # r"
    "list_all is_routing r"
    using updateSettings_autoGain_off(2) [OF assms(1-3)] by blast
  show ?thesis
    using updateSettings_autoGain_off(1) [OF assms(1-3)]
      parameter_writes_spare_autoGain [OF assms(4,5)] routing_spares_values [OF r(2)]
    by (simp add: r(1))
qed

lemma graph_onMessage:
  "nodes (snd (onMessage m s)) = nodes s" "audioCtx (snd (onMessage m s)) = audioCtx s"
  by (cases m; simp add: onMessage_preserves)+

text \<open>An update that leaves auto-gain on does not touch the running value.\<close>

lemma updateSettings_autoGain_on:
  assumes "autoGain (updateSettings_merge inc (settings s))"
  shows "autoGainValue (snd (onMessage (UpdateSettings inc) s)) = autoGainValue s"
proof -
  define f where "f = (\<lambda>t :: state. if autoGain (settings t) then Some (autoGainValue t) else None)"
  have app: "f (snd (applySettingsToNodes t)) = f t" for t
    by (simp add: f_def applySettingsToNodes_def Let_def split: option.splits)
  have route: "f (snd (connectProcessing t)) = f t" "f (snd (connectBypass t)) = f t" for t
    by (simp_all add: f_def)
  have "f (snd (onMessage (UpdateSettings inc) s)) =
          f (saveSettings (s\<lparr>settings := updateSettings_merge inc (settings s)\<rparr>))"
    by (simp add: onMessage_preserves [where f = f, OF app route])
  then show ?thesis
    using assms by (simp add: f_def settings_updateSettings)
qed

lemma steady_level:
  "linearToDB (10 powr (- 6 / 5)) = - 24" "linearToDB (10 powr - (6 / 5)) = - 24"
  by (simp_all add: linearToDB_def)

lemma steady_rms: "calcRMS steady_block = 10 powr (- 6 / 5)"
  by (simp add: steady_block_def calcRMS_replicate)

text \<open>
  C4. Turning auto-gain off resets only half of the controller. After one tick with a
  loud block the value is 0.48 and the window holds one reading; the update
  \<open>{autoGain: false}\<close> sets the value to 0 and leaves the reading in the window, where
  \<open>startMetering\<close> clears both. Turned on again, the controller averages over the stale
  reading: a block at \<open>-24\<close> dB gives 0.64 dB on the first tick, where a controller with an
  empty window gives 0.8 dB.
\<close>

theorem autoGain_off_leaves_window:
  "autoGainValue (run [TryAttach (Some (1, 4)), Tick loud_block loud_block 0] initial_state) =
     12 / 25 \<and>
   rmsHistory (run [TryAttach (Some (1, 4)), Tick loud_block loud_block 0] initial_state) =
     [- 20] \<and>
   \<not> autoGain (settings (run [TryAttach (Some (1, 4)), Tick loud_block loud_block 0,
                                Message (UpdateSettings autoGain_off)] initial_state)) \<and>
   autoGainValue (run [TryAttach (Some (1, 4)), Tick loud_block loud_block 0,
                       Message (UpdateSettings autoGain_off)] initial_state) = 0 \<and>
   rmsHistory (run [TryAttach (Some (1, 4)), Tick loud_block loud_block 0,
                    Message (UpdateSettings autoGain_off)] initial_state) = [- 20] \<and>
   rmsHistory (run [TryAttach (Some (1, 4)), Tick loud_block loud_block 0,
                    Message (UpdateSettings autoGain_off), Message (UpdateSettings autoGain_on),
                    Tick steady_block steady_block 0] initial_state) = [- 20, - 24] \<and>
   autoGainValue (run [TryAttach (Some (1, 4)), Tick loud_block loud_block 0,
                       Message (UpdateSettings autoGain_off), Message (UpdateSettings autoGain_on),
                       Tick steady_block steady_block 0] initial_state) = 16 / 25 \<and>
   autoGainValue (run [TryAttach (Some (1, 4)), Tick steady_block steady_block 0] initial_state) =
     4 / 5"
proof -
  define t1 where "t1 = tick loud_block loud_block 0 one_graph"
  define u1 where "u1 = snd (onMessage (UpdateSettings autoGain_off) t1)"
  define u2 where "u2 = snd (onMessage (UpdateSettings autoGain_on) u1)"
  have r1: "run [TryAttach (Some (1, 4)), Tick loud_block loud_block 0] initial_state = t1"
    and r2: "run [TryAttach (Some (1, 4)), Tick loud_block loud_block 0,
                  Message (UpdateSettings autoGain_off)] initial_state = u1"
    and r3: "run [TryAttach (Some (1, 4)), Tick loud_block loud_block 0,
                  Message (UpdateSettings autoGain_off), Message (UpdateSettings autoGain_on),
                  Tick steady_block steady_block 0] initial_state =
             tick steady_block steady_block 0 u2"
    and r4: "run [TryAttach (Some (1, 4)), Tick steady_block steady_block 0] initial_state =
             tick steady_block steady_block 0 one_graph"
    by (simp_all add: run_def one_graph_def t1_def u1_def u2_def)
  have loud: "auto_gain_active loud_block one_graph"
    by (simp add: auto_gain_active_def one_graph_fields loud_block_level DEFAULT_SETTINGS_def)
  have t1: "rmsHistory t1 = [- 20]" "autoGainValue t1 = 12 / 25"
    "settings t1 = DEFAULT_SETTINGS" "nodes t1 = Some (created_nodes 0)"
    "audioCtx t1 = Some new_AudioContext"
    unfolding t1_def
    by (simp_all add: tick_active(1,2) [OF loud] one_graph_fields spec_push_def mean_spec_def
          spec_clamp_def loud_block_level DEFAULT_SETTINGS_def)
  have off: "\<not> autoGain (updateSettings_merge autoGain_off (settings t1))"
    by (simp add: updateSettings_merge_def autoGain_off_def no_fields_def assign_incoming_def
          Let_def)
  have u1: "rmsHistory u1 = [- 20]" "autoGainValue u1 = 0"
    "settings u1 = updateSettings_merge autoGain_off DEFAULT_SETTINGS"
    "nodes u1 = Some (created_nodes 0)" "audioCtx u1 = Some new_AudioContext"
    unfolding u1_def
    by (simp_all add: rmsHistory_onMessage updateSettings_autoGain_off(1) [OF t1(4,5) off]
          settings_updateSettings graph_onMessage t1)
  have st2: "settings u2 = DEFAULT_SETTINGS\<lparr>preset := ''custom''\<rparr>"
    unfolding u2_def
    by (simp add: settings_updateSettings u1(3) updateSettings_merge_def autoGain_off_def
          autoGain_on_def no_fields_def assign_incoming_def Let_def DEFAULT_SETTINGS_def)
  have on: "autoGain (updateSettings_merge autoGain_on (settings u1))"
    by (simp add: updateSettings_merge_def autoGain_on_def no_fields_def assign_incoming_def
          Let_def)
  have u2: "rmsHistory u2 = [- 20]" "autoGainValue u2 = 0"
    "nodes u2 \<noteq> None" "audioCtx u2 \<noteq> None"
    unfolding u2_def
    by (simp_all add: rmsHistory_onMessage updateSettings_autoGain_on [OF on] graph_onMessage u1)
  have floor: "calcRMS steady_block > 5 / 10000"
    by (rule steady_block_level(1))
  have stale: "auto_gain_active steady_block u2"
    using floor by (simp add: auto_gain_active_def u2 st2 DEFAULT_SETTINGS_def)
  have fresh: "auto_gain_active steady_block one_graph"
    using floor by (simp add: auto_gain_active_def one_graph_fields DEFAULT_SETTINGS_def)
  have a: "rmsHistory (tick steady_block steady_block 0 u2) = [- 20, - 24]"
    by (simp add: tick_active(1) [OF stale] u2 spec_push_def steady_rms steady_level)
  have b: "autoGainValue (tick steady_block steady_block 0 u2) = 16 / 25"
    by (simp add: tick_active(2) [OF stale] u2 st2 spec_push_def mean_spec_def spec_clamp_def
          steady_rms steady_level DEFAULT_SETTINGS_def)
  have c: "autoGainValue (tick steady_block steady_block 0 one_graph) = 4 / 5"
    by (simp add: tick_active(2) [OF fresh] one_graph_fields spec_push_def mean_spec_def
          spec_clamp_def steady_rms steady_level DEFAULT_SETTINGS_def)
  have d: "\<not> autoGain (settings u1)"
    using off by (simp add: u1(3) t1(3))
  show ?thesis
    unfolding r1 r2 r3 r4 using t1(1,2) u1(1,2) a b c d by simp
qed

subsection \<open>Binding a second source\<close>

lemma two_graphs_fields:
  "nodes two_graphs = Some (created_nodes 8)"
  "currentVideo two_graphs = Some 2"
  "tapped two_graphs = [2, 1]"
  "audioCtx two_graphs = Some new_AudioContext"
  "next_node two_graphs = 16"
  and two_graphs_keeps:
  "e \<in> set (connections one_graph) \<Longrightarrow> fst e \<notin> Node ` set (nodes_values (created_nodes 8)) \<Longrightarrow>
   e \<in> set (connections two_graphs)"
proof -
  have a: "2 \<notin> set (tapped one_graph)"
    and b: "\<not> (currentVideo one_graph = Some 2 \<and> audioCtx one_graph \<noteq> None)"
    by (simp_all add: one_graph_fields)
  note built = buildGraph_builds [OF a b]
  show "nodes two_graphs = Some (created_nodes 8)"
    "currentVideo two_graphs = Some 2"
    "tapped two_graphs = [2, 1]"
    "audioCtx two_graphs = Some new_AudioContext"
    "next_node two_graphs = 16"
    unfolding two_graphs_buildGraph using built
    by (simp_all add: one_graph_fields new_AudioContext_def)
  show "e \<in> set (connections two_graphs)"
    if "e \<in> set (connections one_graph)"
      "fst e \<notin> Node ` set (nodes_values (created_nodes 8))"
    unfolding two_graphs_buildGraph using that
    by (intro built(9)) (simp_all add: one_graph_fields)
qed

lemma one_graph_connections:
  "l \<in> set (processing_chain (created_nodes 0)) \<Longrightarrow>
   (Node (fst l), snd l) \<in> set (connections one_graph)"
  "(Node 7, Dest) \<in> set (connections one_graph)"
proof -
  have a: "1 \<notin> set (tapped initial_state)"
    and b: "\<not> (currentVideo initial_state = Some 1 \<and> audioCtx initial_state \<noteq> None)"
    and c: "enabled (settings initial_state)" "next_node initial_state = 0"
    by (simp_all add: initial_state_def DEFAULT_SETTINGS_def)
  show "(Node (fst l), snd l) \<in> set (connections one_graph)"
    if "l \<in> set (processing_chain (created_nodes 0))"
    unfolding one_graph_buildGraph using that buildGraph_builds(10) [OF a b c(1), of l]
    by (simp add: c(2))
  show "(Node 7, Dest) \<in> set (connections one_graph)"
    unfolding one_graph_buildGraph using buildGraph_builds(11) [OF a b c(1)]
    by (simp add: c(2) created_nodes_def)
qed

text \<open>
  C8. Binding a second source does not release the first stage set. After element 1
  and then element 2 were bound, the current nodes are the fresh set (identities 8 to
  15), and every connection of the first set (identities 0 to 7), from its source node
  through the whole chain to the destination, is still live.
\<close>

theorem rebind_leaves_old_graph_connected:
  "nodes one_graph =
     Some \<lparr>n_source = 0, n_inputAnalyser = 1, n_preGain = 2, n_autoGain = 3,
           n_compressor = 4, n_makeupGain = 5, n_limiter = 6, n_outputAnalyser = 7\<rparr> \<and>
   nodes two_graphs =
     Some \<lparr>n_source = 8, n_inputAnalyser = 9, n_preGain = 10, n_autoGain = 11,
           n_compressor = 12, n_makeupGain = 13, n_limiter = 14, n_outputAnalyser = 15\<rparr> \<and>
   (Node 0, Node 1) \<in> set (connections two_graphs) \<and>
   (Node 1, Node 2) \<in> set (connections two_graphs) \<and>
   (Node 2, Node 3) \<in> set (connections two_graphs) \<and>
   (Node 3, Node 4) \<in> set (connections two_graphs) \<and>
   (Node 4, Node 5) \<in> set (connections two_graphs) \<and>
   (Node 5, Node 6) \<in> set (connections two_graphs) \<and>
   (Node 6, Node 7) \<in> set (connections two_graphs) \<and>
   (Node 7, Dest) \<in> set (connections two_graphs)"
proof -
  have old: "(Node a, b) \<in> set (connections two_graphs)"
    if "(Node a, b) \<in> set (connections one_graph)" "a < 8" for a b
    using that by (intro two_graphs_keeps) (auto simp: nodes_values_def created_nodes_def)
  have chain: "(Node a, b) \<in> set (connections one_graph)"
    if "(a, b) \<in> set (processing_chain (created_nodes 0))" for a b
    using one_graph_connections(1) [OF that] by simp
  have "(Node 0, Node 1) \<in> set (connections one_graph)"
    "(Node 1, Node 2) \<in> set (connections one_graph)"
    "(Node 2, Node 3) \<in> set (connections one_graph)"
    "(Node 3, Node 4) \<in> set (connections one_graph)"
    "(Node 4, Node 5) \<in> set (connections one_graph)"
    "(Node 5, Node 6) \<in> set (connections one_graph)"
    "(Node 6, Node 7) \<in> set (connections one_graph)"
    by (rule chain, simp add: processing_chain_def created_nodes_def)+
  then show ?thesis
    using one_graph_connections(2)
    by (simp add: old one_graph_fields two_graphs_fields created_nodes_def)
qed

subsection \<open>A bind that fails\<close>



end
